theory Spec2Isabelle
  imports Complex_Main
begin

section \<open>The persistent store\<close>

text \<open>
  The application keeps its whole state in one SQLite file with seven tables
  (\<^verbatim>\<open>init_db\<close>, app.py lines 53-147).  A row is a record of its columns other than
  \<^verbatim>\<open>id\<close>; a table is the list of its rows in rowid order, each paired with its
  \<^verbatim>\<open>id\<close>, together with the AUTOINCREMENT counter SQLite keeps for it.  Columns
  shared by several tables carry a prefix here (\<open>bb_\<close> for borrowed_books, \<open>br_\<close> for
  borrow_requests, \<open>o_\<close> for orders, \<open>oi_\<close> for order_items, \<open>p_\<close> for payments).
  REAL columns hold prices, which the code only copies and compares with zero; they are
  real numbers here.  BOOLEAN columns are only ever written as 0 or 1.
\<close>

record user =
  username :: string
  email :: string
  password :: string
  first_name :: "string option"
  last_name :: "string option"
  is_admin :: bool
  is_librarian :: bool
  is_approved :: bool

record book =
  title :: string
  author :: string
  category :: string
  publisher :: string
  price :: real
  book_condition :: string
  book_status :: string
  is_available :: bool

record order_row =
  o_user_id :: nat
  order_date :: string
  total_amount :: real
  o_status :: string

record order_item =
  oi_order_id :: nat
  oi_book_id :: nat
  quantity :: nat
  price_at_purchase :: real

record payment =
  p_order_id :: nat
  p_user_id :: nat
  payment_date :: string
  amount :: real
  payment_type :: "string option"
  p_status :: "string option"

record borrowed_book =
  bb_user_id :: nat
  bb_book_id :: nat
  borrow_date :: string
  return_date :: "string option"
  bb_status :: string

record borrow_request =
  br_user_id :: nat
  br_book_id :: nat
  request_date :: string
  br_status :: string

record 'r table =
  rows :: "(nat \<times> 'r) list"
  seq :: nat

record db =
  users :: "user table"
  books :: "book table"
  orders :: "order_row table"
  order_items :: "order_item table"
  payments :: "payment table"
  borrowed_books :: "borrowed_book table"
  borrow_requests :: "borrow_request table"

subsection \<open>SQL statements\<close>

text \<open>
  \<^verbatim>\<open>SELECT ... WHERE\<close> keeps the matching rows in table order (the one query that
  SQLite answers in another order is \<open>select_username_or_email\<close> below) and
  \<^verbatim>\<open>fetchone()\<close> takes the first of them or \<^verbatim>\<open>None\<close>; \<^verbatim>\<open>UPDATE ... WHERE\<close> rewrites every matching
  row in place; \<^verbatim>\<open>DELETE ... WHERE\<close> drops every matching row; \<^verbatim>\<open>INSERT\<close> appends a
  row whose id is one more than the largest id the table holds or has ever handed out
  (\<^verbatim>\<open>INTEGER PRIMARY KEY AUTOINCREMENT\<close>), which is also what \<^verbatim>\<open>cursor.lastrowid\<close>
  reads afterwards.
\<close>

definition select_where :: "(nat \<Rightarrow> 'r \<Rightarrow> bool) \<Rightarrow> 'r table \<Rightarrow> (nat \<times> 'r) list" where
  "select_where P t = filter (\<lambda>(i, r). P i r) (rows t)"

definition fetchone :: "'a list \<Rightarrow> 'a option" where
  "fetchone xs = (case xs of [] \<Rightarrow> None | x # _ \<Rightarrow> Some x)"

text \<open>
  The lookup of \<^verbatim>\<open>login\<close>, \<^verbatim>\<open>SELECT * FROM users WHERE username = ? OR email = ?\<close>
  (lines 333-336).  Both columns are declared UNIQUE, so each has an index, and SQLite
  answers the query from the two indexes in the order of the terms: first the row whose
  username is the identifier, then the row whose email is, unless it is the row already
  given.  \<^verbatim>\<open>fetchone()\<close> therefore prefers the user with that username to the user with
  that email, whichever was registered first.
\<close>

definition select_username_or_email :: "string \<Rightarrow> user table \<Rightarrow> (nat \<times> user) list" where
  "select_username_or_email identifier t =
     select_where (\<lambda>_ u. username u = identifier) t @
     select_where (\<lambda>_ u. username u \<noteq> identifier \<and> email u = identifier) t"

definition update_where :: "(nat \<Rightarrow> 'r \<Rightarrow> bool) \<Rightarrow> ('r \<Rightarrow> 'r) \<Rightarrow> 'r table \<Rightarrow> 'r table" where
  "update_where P f t =
     t\<lparr>rows := map (\<lambda>(i, r). if P i r then (i, f r) else (i, r)) (rows t)\<rparr>"

definition delete_where :: "(nat \<Rightarrow> 'r \<Rightarrow> bool) \<Rightarrow> 'r table \<Rightarrow> 'r table" where
  "delete_where P t = t\<lparr>rows := filter (\<lambda>(i, r). \<not> P i r) (rows t)\<rparr>"

definition next_id :: "'r table \<Rightarrow> nat" where
  "next_id t = Suc (fold max (map fst (rows t)) (seq t))"

definition insert_row :: "'r \<Rightarrow> 'r table \<Rightarrow> 'r table" where
  "insert_row r t = t\<lparr>rows := rows t @ [(next_id t, r)], seq := next_id t\<rparr>"

definition lastrowid :: "'r table \<Rightarrow> nat" where
  "lastrowid t = seq t"

text \<open>The two status values the code treats as "on offer" (the list literal
  \<^verbatim>\<open>['Available', 'On Shelves']\<close> of lines 410, 461 and 903 and the SQL
  \<^verbatim>\<open>IN ('Available', 'On Shelves')\<close> of lines 375, 385, 521 and 582).\<close>

definition available_statuses :: "string list" where
  "available_statuses = [''Available'', ''On Shelves'']"

subsection \<open>Transactions and exceptions\<close>

text \<open>
  Every handler opens its own connection; the first writing statement opens a
  transaction, \<^verbatim>\<open>conn.commit()\<close> makes its writes durable, and \<^verbatim>\<open>conn.rollback()\<close>
  (or closing the connection without a commit) discards them.  A writing statement or the
  commit may raise: \<open>fails k\<close> says that the \<open>k\<close>-th of them (counted from 0 inside the
  transaction, the commit last) raises \<^verbatim>\<open>sqlite3.OperationalError\<close>.  A statement may
  also raise by itself (a UNIQUE constraint).  \<open>transaction\<close> runs the statements in
  order and commits; \<open>Inl\<close> is the exception that escaped, and the caller then keeps
  the database it started from.  Reads are taken not to fail.
\<close>

datatype exn = OperationalError | IntegrityError | TypeError

type_synonym stmt = "db \<Rightarrow> exn + db"

definition execute :: "(db \<Rightarrow> db) \<Rightarrow> stmt" where
  "execute f d = Inr (f d)"

fun transaction :: "(nat \<Rightarrow> bool) \<Rightarrow> nat \<Rightarrow> stmt list \<Rightarrow> db \<Rightarrow> exn + db" where
  "transaction fails k [] d = (if fails k then Inl OperationalError else Inr d)"
| "transaction fails k (s # ss) d =
     (if fails k then Inl OperationalError
      else case s d of Inl e \<Rightarrow> Inl e | Inr d' \<Rightarrow> transaction fails (Suc k) ss d')"

text \<open>The users table declares \<^verbatim>\<open>username TEXT UNIQUE\<close> and \<^verbatim>\<open>email TEXT UNIQUE\<close>:
  an insert that would repeat either raises \<^verbatim>\<open>sqlite3.IntegrityError\<close>.\<close>

definition insert_user :: "user \<Rightarrow> stmt" where
  "insert_user u d =
     (if \<exists>(i, v) \<in> set (rows (users d)). username v = username u \<or> email v = email u
      then Inl IntegrityError
      else Inr (d\<lparr>users := insert_row u (users d)\<rparr>))"

subsection \<open>What a handler reports\<close>

text \<open>
  A handler reports through \<^verbatim>\<open>flash(message, category)\<close>.  Each message of app.py is a
  constructor, with the values the f-string interpolates as arguments.  The typed errors of
  the specification are these messages: BookUnavailableError is
  \<open>Book_no_longer_available\<close> (approval) or \<open>Not_available_for_purchase\<close> /
  \<open>Not_available_for_borrowing\<close>, DuplicateRequestError is \<open>Already_pending\<close>,
  AlreadyBorrowedError is \<open>Already_borrowed\<close>, SelfDeleteError is \<open>Cannot_delete_own\<close>,
  ProtectedAccountError is \<open>Cannot_delete_protected\<close>, NotApprovedError is
  \<open>Awaiting_approval\<close>, InvalidCredentialsError is \<open>Invalid_credentials\<close>, and
  StorageError is any of the \<open>Error_...\<close> messages carrying the exception.
\<close>

datatype flash_category = error | warning | info | success

datatype message =
    All_fields_required
  | Passwords_do_not_match
  | Registration_successful
  | Username_or_email_exists
  | Awaiting_approval
  | Logged_in
  | Invalid_credentials
  | Price_negative
  | Invalid_price
  | Book_added string
  | Error_adding_book exn
  | Book_not_found
  | Book_updated string
  | Error_updating_book exn
  | Book_deleted
  | Error_deleting_book exn
  | Not_available_for_borrowing
  | Already_pending string
  | Already_borrowed string
  | Borrow_request_submitted string
  | Error_submitting_request exn
  | Not_available_for_purchase
  | Purchased string real
  | Error_during_purchase exn
  | Borrow_record_not_found
  | Returned_book
  | Error_during_return exn
  | All_fields_required_for_donation
  | Thank_you_for_donating string
  | Error_processing_donation exn
  | User_approved
  | Error_approving_user exn
  | Cannot_delete_own
  | Cannot_delete_protected
  | User_deleted
  | Error_deleting_user exn
  | Request_not_found
  | Book_no_longer_available string
  | Request_approved string
  | Error_approving_request exn
  | Request_rejected
  | Error_rejecting_request exn

type_synonym flash = "message \<times> flash_category"

type_synonym outcome = "flash list \<times> db"

datatype http_method = GET | POST

section \<open>The handlers\<close>

text \<open>
  Each route of app.py is a function from its inputs and the database to the messages it
  flashes, in order, and the database it leaves behind.  The inputs are the form fields and
  URL parameters, the identity the session holds (\<^verbatim>\<open>session['user_id']\<close>), the clock
  (\<^verbatim>\<open>datetime.now().isoformat()\<close>, the parameter \<open>now\<close>), the library functions the
  code calls (\<^verbatim>\<open>float\<close>, \<^verbatim>\<open>generate_password_hash\<close>, \<^verbatim>\<open>check_password_hash\<close>,
  parameters as well) and the faults \<open>fails\<close>.  The decorators (\<^verbatim>\<open>login_required\<close>,
  \<^verbatim>\<open>admin_required\<close>, \<^verbatim>\<open>librarian_or_admin_required\<close>) only decide whether the
  handler is called at all; the functions below are the handlers they wrap.  Pages and
  redirects are not part of the model.
\<close>

subsection \<open>Accounts\<close>

text \<open>\<^verbatim>\<open>register\<close> (lines 290-323) catches \<^verbatim>\<open>sqlite3.IntegrityError\<close> only: any other
  exception leaves the handler (\<open>Inl\<close>), after \<^verbatim>\<open>finally\<close> has closed the connection
  without a commit.\<close>

definition register ::
  "(nat \<Rightarrow> bool) \<Rightarrow> (string \<Rightarrow> string) \<Rightarrow> http_method \<Rightarrow> string \<Rightarrow> string \<Rightarrow> string \<Rightarrow> string \<Rightarrow>
   string option \<Rightarrow> string option \<Rightarrow> db \<Rightarrow> exn + outcome" where
  "register fails generate_password_hash method username' email' password' confirm_password
      first_name' last_name' d =
    (if method \<noteq> POST then Inr ([], d)
     else if username' = [] \<or> email' = [] \<or> password' = [] \<or> confirm_password = []
     then Inr ([(All_fields_required, error)], d)
     else if password' \<noteq> confirm_password
     then Inr ([(Passwords_do_not_match, error)], d)
     else
       (let hashed_password = generate_password_hash password' in
        case transaction fails 0
               [insert_user \<lparr>username = username', email = email', password = hashed_password,
                  first_name = first_name', last_name = last_name',
                  is_admin = False, is_librarian = False, is_approved = False\<rparr>] d of
          Inr d' \<Rightarrow> Inr ([(Registration_successful, success)], d')
        | Inl IntegrityError \<Rightarrow> Inr ([(Username_or_email_exists, error)], d)
        | Inl e \<Rightarrow> Inl e))"

text \<open>What \<^verbatim>\<open>login\<close> stores in the session on success.\<close>

record session =
  s_user_id :: nat
  s_username :: string
  s_is_admin :: bool
  s_is_librarian :: bool

text \<open>\<^verbatim>\<open>login\<close> (lines 326-355) reads only; it returns the flashes and the session it
  establishes, if any.\<close>

definition login ::
  "(string \<Rightarrow> string \<Rightarrow> bool) \<Rightarrow> http_method \<Rightarrow> string \<Rightarrow> string \<Rightarrow> db \<Rightarrow> flash list \<times> session option" where
  "login check_password_hash method identifier password' d =
    (if method \<noteq> POST then ([], None)
     else
       case fetchone (select_username_or_email identifier (users d)) of
         Some (uid, user) \<Rightarrow>
           if \<not> is_approved user then ([(Awaiting_approval, warning)], None)
           else if check_password_hash (password user) password'
           then ([(Logged_in, success)],
                 Some \<lparr>s_user_id = uid, s_username = username user,
                       s_is_admin = is_admin user, s_is_librarian = is_librarian user\<rparr>)
           else ([(Invalid_credentials, error)], None)
       | None \<Rightarrow> ([(Invalid_credentials, error)], None))"

text \<open>\<^verbatim>\<open>approve_user\<close> (lines 806-821).\<close>

definition approve_user :: "(nat \<Rightarrow> bool) \<Rightarrow> nat \<Rightarrow> db \<Rightarrow> outcome" where
  "approve_user fails user_id d =
    (case transaction fails 0
            [execute (\<lambda>d. d\<lparr>users := update_where (\<lambda>i _. i = user_id)
                                         (\<lambda>u. u\<lparr>is_approved := True\<rparr>) (users d)\<rparr>)] d of
       Inr d' \<Rightarrow> ([(User_approved, success)], d')
     | Inl e \<Rightarrow> ([(Error_approving_user e, error)], d))"

text \<open>\<^verbatim>\<open>delete_user\<close> (lines 824-857).  \<open>session_user_id\<close> is
  \<^verbatim>\<open>session.get('user_id')\<close>.  The loop of lines 843-844 issues one DELETE per order
  of the user; the orders are read after the first three deletes, which leave the orders
  table alone.\<close>

definition delete_user :: "(nat \<Rightarrow> bool) \<Rightarrow> nat option \<Rightarrow> nat \<Rightarrow> db \<Rightarrow> outcome" where
  "delete_user fails session_user_id user_id d =
    (if Some user_id = session_user_id then ([(Cannot_delete_own, error)], d)
     else
       let target_user = fetchone (select_where (\<lambda>i _. i = user_id) (users d)) in
       if (case target_user of None \<Rightarrow> False | Some (_, u) \<Rightarrow> is_admin u \<or> is_librarian u)
       then ([(Cannot_delete_protected, error)], d)
       else
         let order_ids_to_delete = map fst (select_where (\<lambda>_ o'. o_user_id o' = user_id) (orders d)) in
         case transaction fails 0
                ([execute (\<lambda>d. d\<lparr>borrowed_books := delete_where (\<lambda>_ r. bb_user_id r = user_id) (borrowed_books d)\<rparr>),
                  execute (\<lambda>d. d\<lparr>payments := delete_where (\<lambda>_ r. p_user_id r = user_id) (payments d)\<rparr>),
                  execute (\<lambda>d. d\<lparr>borrow_requests := delete_where (\<lambda>_ r. br_user_id r = user_id) (borrow_requests d)\<rparr>)]
                 @ map (\<lambda>order_id. execute (\<lambda>d. d\<lparr>order_items :=
                          delete_where (\<lambda>_ r. oi_order_id r = order_id) (order_items d)\<rparr>)) order_ids_to_delete
                 @ [execute (\<lambda>d. d\<lparr>orders := delete_where (\<lambda>_ r. o_user_id r = user_id) (orders d)\<rparr>),
                    execute (\<lambda>d. d\<lparr>users := delete_where (\<lambda>i _. i = user_id) (users d)\<rparr>)]) d of
           Inr d' \<Rightarrow> ([(User_deleted, success)], d')
         | Inl e \<Rightarrow> ([(Error_deleting_user e, error)], d))"

subsection \<open>Catalog\<close>

text \<open>The two catalog pages (lines 371-387): the borrow page lists the books on offer with
  price 0, the sale page those with a positive price.\<close>

definition books_route :: "db \<Rightarrow> (nat \<times> book) list" where
  "books_route d = select_where (\<lambda>_ b. price b = 0 \<and> book_status b \<in> set available_statuses) (books d)"

definition books_for_sale :: "db \<Rightarrow> (nat \<times> book) list" where
  "books_for_sale d = select_where (\<lambda>_ b. price b > 0 \<and> book_status b \<in> set available_statuses) (books d)"

text \<open>\<^verbatim>\<open>add_book\<close> (lines 399-439).  \<open>float\<close> is Python's \<^verbatim>\<open>float(price)\<close>, \<open>None\<close>
  where it raises \<^verbatim>\<open>ValueError\<close>.  The \<^verbatim>\<open>except\<close> clause does not roll back, but the
  connection is closed without a commit.\<close>

definition add_book ::
  "(nat \<Rightarrow> bool) \<Rightarrow> (string \<Rightarrow> real option) \<Rightarrow> http_method \<Rightarrow> string \<Rightarrow> string \<Rightarrow> string \<Rightarrow> string \<Rightarrow>
   string \<Rightarrow> string \<Rightarrow> string \<Rightarrow> db \<Rightarrow> outcome" where
  "add_book fails float method title' author' category' publisher' price' book_condition' book_status' d =
    (if method \<noteq> POST then ([], d)
     else
       let is_available' = (book_status' \<in> set available_statuses) in
       if title' = [] \<or> author' = [] \<or> category' = [] \<or> publisher' = [] \<or> price' = []
          \<or> book_condition' = [] \<or> book_status' = []
       then ([(All_fields_required, error)], d)
       else
         case float price' of
           None \<Rightarrow> ([(Invalid_price, error)], d)
         | Some p \<Rightarrow>
             if p < 0 then ([(Price_negative, error)], d)
             else
               case transaction fails 0
                      [execute (\<lambda>d. d\<lparr>books := insert_row
                         \<lparr>title = title', author = author', category = category', publisher = publisher',
                          price = p, book_condition = book_condition', book_status = book_status',
                          is_available = is_available'\<rparr> (books d)\<rparr>)] d of
                 Inr d' \<Rightarrow> ([(Book_added title', success)], d')
               | Inl e \<Rightarrow> ([(Error_adding_book e, error)], d))"

text \<open>\<^verbatim>\<open>edit_book\<close> (lines 442-494).\<close>

definition edit_book ::
  "(nat \<Rightarrow> bool) \<Rightarrow> (string \<Rightarrow> real option) \<Rightarrow> http_method \<Rightarrow> nat \<Rightarrow> string \<Rightarrow> string \<Rightarrow> string \<Rightarrow> string \<Rightarrow>
   string \<Rightarrow> string \<Rightarrow> string \<Rightarrow> db \<Rightarrow> outcome" where
  "edit_book fails float method book_id title' author' category' publisher' price' book_condition'
      book_status' d =
    (case fetchone (select_where (\<lambda>i _. i = book_id) (books d)) of
       None \<Rightarrow> ([(Book_not_found, error)], d)
     | Some _ \<Rightarrow>
       if method \<noteq> POST then ([], d)
       else
         let is_available' = (book_status' \<in> set available_statuses) in
         if title' = [] \<or> author' = [] \<or> category' = [] \<or> publisher' = [] \<or> price' = []
            \<or> book_condition' = [] \<or> book_status' = []
         then ([(All_fields_required, error)], d)
         else
           case float price' of
             None \<Rightarrow> ([(Invalid_price, error)], d)
           | Some p \<Rightarrow>
               if p < 0 then ([(Price_negative, error)], d)
               else
                 case transaction fails 0
                        [execute (\<lambda>d. d\<lparr>books := update_where (\<lambda>i _. i = book_id)
                           (\<lambda>b. b\<lparr>title := title', author := author', category := category',
                                  publisher := publisher', price := p, book_condition := book_condition',
                                  book_status := book_status', is_available := is_available'\<rparr>)
                           (books d)\<rparr>)] d of
                   Inr d' \<Rightarrow> ([(Book_updated title', success)], d')
                 | Inl e \<Rightarrow> ([(Error_updating_book e, error)], d))"

text \<open>\<^verbatim>\<open>delete_book\<close> (lines 497-514).\<close>

definition delete_book :: "(nat \<Rightarrow> bool) \<Rightarrow> nat \<Rightarrow> db \<Rightarrow> outcome" where
  "delete_book fails book_id d =
    (case transaction fails 0
            [execute (\<lambda>d. d\<lparr>borrowed_books := delete_where (\<lambda>_ r. bb_book_id r = book_id) (borrowed_books d)\<rparr>),
             execute (\<lambda>d. d\<lparr>borrow_requests := delete_where (\<lambda>_ r. br_book_id r = book_id) (borrow_requests d)\<rparr>),
             execute (\<lambda>d. d\<lparr>order_items := delete_where (\<lambda>_ r. oi_book_id r = book_id) (order_items d)\<rparr>),
             execute (\<lambda>d. d\<lparr>books := delete_where (\<lambda>i _. i = book_id) (books d)\<rparr>)] d of
       Inr d' \<Rightarrow> ([(Book_deleted, success)], d')
     | Inl e \<Rightarrow> ([(Error_deleting_book e, error)], d))"

text \<open>\<^verbatim>\<open>donate_book\<close> (lines 664-695).\<close>

definition donate_book ::
  "(nat \<Rightarrow> bool) \<Rightarrow> http_method \<Rightarrow> string \<Rightarrow> string \<Rightarrow> string \<Rightarrow> string \<Rightarrow> db \<Rightarrow> outcome" where
  "donate_book fails method title' author' category' publisher' d =
    (if method \<noteq> POST then ([], d)
     else
       let book_condition' = ''Second Hand''; book_status' = ''On Shelves''; price' = 0.0 in
       if title' = [] \<or> author' = [] \<or> category' = [] \<or> publisher' = []
       then ([(All_fields_required_for_donation, error)], d)
       else
         case transaction fails 0
                [execute (\<lambda>d. d\<lparr>books := insert_row
                   \<lparr>title = title', author = author', category = category', publisher = publisher',
                    price = price', book_condition = book_condition', book_status = book_status',
                    is_available = True\<rparr> (books d)\<rparr>)] d of
           Inr d' \<Rightarrow> ([(Thank_you_for_donating title', success)], d')
         | Inl e \<Rightarrow> ([(Error_processing_donation e, error)], d))"

subsection \<open>Borrowing, purchase and return\<close>

text \<open>\<^verbatim>\<open>borrow_book\<close> (lines 517-574); \<open>user_id\<close> is \<^verbatim>\<open>session['user_id']\<close>.\<close>

definition borrow_book :: "(nat \<Rightarrow> bool) \<Rightarrow> nat \<Rightarrow> string \<Rightarrow> nat \<Rightarrow> db \<Rightarrow> outcome" where
  "borrow_book fails user_id now book_id d =
    (case fetchone (select_where
            (\<lambda>i b. i = book_id \<and> price b = 0 \<and> book_status b \<in> set available_statuses) (books d)) of
       None \<Rightarrow> ([(Not_available_for_borrowing, error)], d)
     | Some (_, book) \<Rightarrow>
       let request_date' = now;
           existing_request = fetchone (select_where
             (\<lambda>_ r. br_user_id r = user_id \<and> br_book_id r = book_id \<and> br_status r = ''Pending'')
             (borrow_requests d));
           existing_borrow = fetchone (select_where
             (\<lambda>_ r. bb_user_id r = user_id \<and> bb_book_id r = book_id \<and> bb_status r = ''Borrowed'')
             (borrowed_books d))
       in
         if existing_request \<noteq> None then ([(Already_pending (title book), info)], d)
         else if existing_borrow \<noteq> None then ([(Already_borrowed (title book), info)], d)
         else
           case transaction fails 0
                  [execute (\<lambda>d. d\<lparr>borrow_requests := insert_row
                     \<lparr>br_user_id = user_id, br_book_id = book_id, request_date = request_date',
                      br_status = ''Pending''\<rparr> (borrow_requests d)\<rparr>)] d of
             Inr d' \<Rightarrow> ([(Borrow_request_submitted (title book), success)], d')
           | Inl e \<Rightarrow> ([(Error_submitting_request e, error)], d))"

text \<open>\<^verbatim>\<open>purchase_book\<close> (lines 577-621).  The order item takes its \<^verbatim>\<open>order_id\<close> from
  \<^verbatim>\<open>cursor.lastrowid\<close> after the order has been inserted.\<close>

definition purchase_book :: "(nat \<Rightarrow> bool) \<Rightarrow> nat \<Rightarrow> string \<Rightarrow> nat \<Rightarrow> db \<Rightarrow> outcome" where
  "purchase_book fails user_id now book_id d =
    (case fetchone (select_where
            (\<lambda>i b. i = book_id \<and> price b > 0 \<and> book_status b \<in> set available_statuses) (books d)) of
       None \<Rightarrow> ([(Not_available_for_purchase, error)], d)
     | Some (bid, book) \<Rightarrow>
       let order_date' = now; total_amount' = price book; status = ''Completed'' in
       case transaction fails 0
              [execute (\<lambda>d. d\<lparr>orders := insert_row
                 \<lparr>o_user_id = user_id, order_date = order_date', total_amount = total_amount',
                  o_status = status\<rparr> (orders d)\<rparr>),
               execute (\<lambda>d. d\<lparr>order_items := insert_row
                 \<lparr>oi_order_id = lastrowid (orders d), oi_book_id = bid, quantity = 1,
                  price_at_purchase = price book\<rparr> (order_items d)\<rparr>),
               execute (\<lambda>d. d\<lparr>books := update_where (\<lambda>i _. i = book_id)
                 (\<lambda>b. b\<lparr>book_status := ''Sold'', is_available := False\<rparr>) (books d)\<rparr>)] d of
         Inr d' \<Rightarrow> ([(Purchased (title book) (price book), success)], d')
       | Inl e \<Rightarrow> ([(Error_during_purchase e, error)], d))"

text \<open>\<^verbatim>\<open>return_book\<close> (lines 624-661).\<close>

definition return_book :: "(nat \<Rightarrow> bool) \<Rightarrow> nat \<Rightarrow> string \<Rightarrow> nat \<Rightarrow> db \<Rightarrow> outcome" where
  "return_book fails user_id now borrow_id d =
    (case fetchone (select_where
            (\<lambda>i r. i = borrow_id \<and> bb_user_id r = user_id \<and> bb_status r = ''Borrowed'')
            (borrowed_books d)) of
       None \<Rightarrow> ([(Borrow_record_not_found, error)], d)
     | Some (_, borrow_record) \<Rightarrow>
       let book_id = bb_book_id borrow_record; return_date' = now in
       case transaction fails 0
              [execute (\<lambda>d. d\<lparr>borrowed_books := update_where (\<lambda>i _. i = borrow_id)
                 (\<lambda>r. r\<lparr>bb_status := ''Returned'', return_date := Some return_date'\<rparr>)
                 (borrowed_books d)\<rparr>),
               execute (\<lambda>d. d\<lparr>books := update_where (\<lambda>i _. i = book_id)
                 (\<lambda>b. b\<lparr>book_status := ''On Shelves'', is_available := True\<rparr>) (books d)\<rparr>)] d of
         Inr d' \<Rightarrow> ([(Returned_book, success)], d')
       | Inl e \<Rightarrow> ([(Error_during_return e, error)], d))"

subsection \<open>Borrow requests\<close>

text \<open>
  \<^verbatim>\<open>approve_borrow_request\<close> (lines 880-933).  Line 903 sends both a missing book row
  (\<^verbatim>\<open>not book_info\<close>) and a book whose status is not on offer into the same branch, whose
  first action is to build the message from \<^verbatim>\<open>book_info["title"]\<close>.  With no book row
  that subscript raises \<^verbatim>\<open>TypeError\<close> before anything is flashed or written, and the
  \<^verbatim>\<open>except\<close> clause rolls back and reports the exception.  With a book row the message
  is flashed, then the request is rejected and committed; if that write or its commit
  raises, the same \<^verbatim>\<open>except\<close> clause runs.
\<close>

definition approve_borrow_request :: "(nat \<Rightarrow> bool) \<Rightarrow> string \<Rightarrow> nat \<Rightarrow> db \<Rightarrow> outcome" where
  "approve_borrow_request fails now request_id d =
    (case fetchone (select_where (\<lambda>i r. i = request_id \<and> br_status r = ''Pending'')
            (borrow_requests d)) of
       None \<Rightarrow> ([(Request_not_found, error)], d)
     | Some (_, request_record) \<Rightarrow>
       let user_id = br_user_id request_record;
           book_id = br_book_id request_record;
           borrow_date' = now;
           book_info = fetchone (select_where (\<lambda>i _. i = book_id) (books d))
       in
         case book_info of
           None \<Rightarrow> ([(Error_approving_request TypeError, error)], d)
         | Some (_, info_row) \<Rightarrow>
           if book_status info_row \<notin> set available_statuses
           then
             (case transaction fails 0
                     [execute (\<lambda>d. d\<lparr>borrow_requests := update_where (\<lambda>i _. i = request_id)
                        (\<lambda>r. r\<lparr>br_status := ''Rejected''\<rparr>) (borrow_requests d)\<rparr>)] d of
                Inr d' \<Rightarrow> ([(Book_no_longer_available (title info_row), error)], d')
              | Inl e \<Rightarrow> ([(Book_no_longer_available (title info_row), error),
                            (Error_approving_request e, error)], d))
           else
             (case transaction fails 0
                     [execute (\<lambda>d. d\<lparr>books := update_where (\<lambda>i _. i = book_id)
                        (\<lambda>b. b\<lparr>book_status := ''Borrowed'', is_available := False\<rparr>) (books d)\<rparr>),
                      execute (\<lambda>d. d\<lparr>borrowed_books := insert_row
                        \<lparr>bb_user_id = user_id, bb_book_id = book_id, borrow_date = borrow_date',
                         return_date = None, bb_status = ''Borrowed''\<rparr> (borrowed_books d)\<rparr>),
                      execute (\<lambda>d. d\<lparr>borrow_requests := update_where (\<lambda>i _. i = request_id)
                        (\<lambda>r. r\<lparr>br_status := ''Approved''\<rparr>) (borrow_requests d)\<rparr>)] d of
                Inr d' \<Rightarrow> ([(Request_approved (title info_row), success)], d')
              | Inl e \<Rightarrow> ([(Error_approving_request e, error)], d)))"

text \<open>\<^verbatim>\<open>reject_borrow_request\<close> (lines 936-964).\<close>

definition reject_borrow_request :: "(nat \<Rightarrow> bool) \<Rightarrow> nat \<Rightarrow> db \<Rightarrow> outcome" where
  "reject_borrow_request fails request_id d =
    (case fetchone (select_where (\<lambda>i r. i = request_id \<and> br_status r = ''Pending'')
            (borrow_requests d)) of
       None \<Rightarrow> ([(Request_not_found, error)], d)
     | Some _ \<Rightarrow>
       (case transaction fails 0
               [execute (\<lambda>d. d\<lparr>borrow_requests := update_where (\<lambda>i _. i = request_id)
                  (\<lambda>r. r\<lparr>br_status := ''Rejected''\<rparr>) (borrow_requests d)\<rparr>)] d of
          Inr d' \<Rightarrow> ([(Request_rejected, info)], d')
        | Inl e \<Rightarrow> ([(Error_rejecting_request e, error)], d)))"

section \<open>Start-up and the reachable states\<close>

text \<open>
  \<^verbatim>\<open>init_db\<close> (lines 53-242) runs at every start of the application.  The schema
  statements change no row.  Then come three steps, each with its own commit: the
  default administrator unless a user named \<^verbatim>\<open>admin\<close> exists, the default librarian
  unless a user named \<^verbatim>\<open>librarian\<close> exists, and the 35 sample books if the books table
  is empty.  Nothing is caught: an exception ends the start-up and leaves what was
  committed before it.  The faults of the three transactions are numbered from 0, 2 and 4.
\<close>

definition book_row ::
  "string \<Rightarrow> string \<Rightarrow> string \<Rightarrow> string \<Rightarrow> real \<Rightarrow> string \<Rightarrow> string \<Rightarrow> bool \<Rightarrow> book" where
  "book_row t a c p pr bc bs av =
     \<lparr>title = t, author = a, category = c, publisher = p, price = pr,
      book_condition = bc, book_status = bs, is_available = av\<rparr>"

definition selling_books :: "book list" where
  "selling_books =
    [book_row ''The Quantum Realm'' ''Dr. Alice Smith'' ''Science Fiction'' ''Future Press''
       25.99 ''New'' ''Available'' True,
     book_row ''Culinary Delights'' ''Chef Antoine'' ''Cookbook'' ''Gourmet Prints''
       32.50 ''New'' ''Available'' True,
     book_row ''Secrets of the Ancient City'' ''Prof. Indiana Jones'' ''History'' ''Discovery Books''
       18.00 ''Second Hand'' ''Available'' True,
     book_row ''Digital Marketing Mastery'' ''Sarah SEO'' ''Business'' ''Innovate Publishing''
       45.00 ''New'' ''Available'' True,
     book_row ''Art of Minimalist Living'' ''Zen Master'' ''Self-Help'' ''Harmony House''
       15.75 ''New'' ''Available'' True,
     book_row ''Galactic Explorers'' ''Captain Kirk'' ''Space Opera'' ''Starbound Books''
       29.99 ''New'' ''Available'' True,
     book_row ''The Silent Witness'' ''Agatha Christie'' ''Mystery'' ''Classic Reads''
       10.50 ''Second Hand'' ''Available'' True,
     book_row ''Coding for Beginners'' ''Dev Guru'' ''Technology'' ''Code Publishers''
       22.00 ''New'' ''Available'' True,
     book_row ''Gardening for Dummies'' ''Green Thumb'' ''Hobby'' ''Outdoor Living''
       14.99 ''New'' ''Available'' True,
     book_row ''Financial Freedom'' ''Mr. Moneybags'' ''Finance'' ''Wealth Creators''
       39.99 ''New'' ''Available'' True,
     book_row ''The Lost Artifact'' ''Archaeologist Ann'' ''Adventure'' ''Ancient Lore''
       21.00 ''New'' ''Available'' True,
     book_row ''Healthy Eating Guide'' ''Nutritionist Nora'' ''Health'' ''Wellness Books''
       17.50 ''New'' ''Available'' True,
     book_row ''Travel the World on a Budget'' ''Wanderlust Will'' ''Travel'' ''Global Guides''
       13.00 ''Second Hand'' ''Available'' True,
     book_row ''Understanding AI'' ''Dr. Robot'' ''Technology'' ''Future Minds''
       55.00 ''New'' ''Available'' True,
     book_row ''The Art of Photography'' ''Lens Master'' ''Art'' ''Visual Arts Press''
       28.00 ''New'' ''Available'' True,
     book_row ''Mythical Creatures Compendium'' ''Lorelei Legend'' ''Fantasy'' ''Enchanted Scrolls''
       20.00 ''New'' ''Available'' True,
     book_row ''Space Colonization'' ''Elon Musk'' ''Science'' ''Mars Books''
       49.99 ''New'' ''Available'' True,
     book_row ''Effective Communication'' ''Speaker Sam'' ''Self-Help'' ''Voice Publishing''
       16.25 ''New'' ''Available'' True,
     book_row ''The History of Jazz'' ''Melody Maker'' ''Music'' ''Rhythm Books''
       24.00 ''New'' ''Available'' True,
     book_row ''Quantum Computing Explained'' ''Dr. Qubit'' ''Technology'' ''Bitstream Press''
       60.00 ''New'' ''Available'' True]"

definition borrowing_books :: "book list" where
  "borrowing_books =
    [book_row ''Introduction to Python'' ''Guido van Rossum'' ''Programming'' ''Open Source Pub''
       0.00 ''New'' ''Available'' True,
     book_row ''Classic Fairy Tales'' ''Various Authors'' ''Children'' ''Storytime Press''
       0.00 ''Second Hand'' ''Available'' True,
     book_row ''World Atlas 2024'' ''Cartography Dept.'' ''Reference'' ''Map Makers Inc.''
       0.00 ''New'' ''Available'' True,
     book_row ''Basic Algebra'' ''Math Whiz'' ''Education'' ''Equation Books''
       0.00 ''New'' ''Available'' True,
     book_row ''The Art of Public Speaking'' ''Orator Owen'' ''Self-Help'' ''Voice Masters''
       0.00 ''Second Hand'' ''Available'' True,
     book_row ''Beginner's Guide to Chess'' ''Grandmaster G.'' ''Hobby'' ''Strategy Games''
       0.00 ''New'' ''Available'' True,
     book_row ''Introduction to Philosophy'' ''Socrates Jr.'' ''Philosophy'' ''Thinkers Press''
       0.00 ''New'' ''Available'' True,
     book_row ''Cooking for One'' ''Solo Chef'' ''Cookbook'' ''Single Serve Pub''
       0.00 ''Second Hand'' ''Available'' True,
     book_row ''Yoga for Stress Relief'' ''Calm Cathy'' ''Health'' ''Mind Body Books''
       0.00 ''New'' ''Available'' True,
     book_row ''Short Stories for Long Nights'' ''Anthology'' ''Fiction'' ''Dream Weaver''
       0.00 ''New'' ''Available'' True,
     book_row ''DIY Home Repairs'' ''Handy Harry'' ''Hobby'' ''Fix It Yourself''
       0.00 ''Second Hand'' ''Available'' True,
     book_row ''The Wonders of Nature'' ''Naturalist Nick'' ''Science'' ''Green Earth Books''
       0.00 ''New'' ''Available'' True,
     book_row ''Learn Spanish in 30 Days'' ''Lingua Lingo'' ''Language'' ''Polyglot Press''
       0.00 ''New'' ''Available'' True,
     book_row ''Introduction to Economics'' ''Adam Smithy'' ''Economics'' ''Market Insights''
       0.00 ''Second Hand'' ''Available'' True,
     book_row ''A Brief History of Time'' ''Stephen Hawking'' ''Science'' ''Cosmos Books''
       0.00 ''New'' ''Available'' True]"

definition empty_table :: "'r table" where
  "empty_table = \<lparr>rows = [], seq = 0\<rparr>"

definition empty_db :: db where
  "empty_db = \<lparr>users = empty_table, books = empty_table, orders = empty_table,
     order_items = empty_table, payments = empty_table, borrowed_books = empty_table,
     borrow_requests = empty_table\<rparr>"

definition init_db :: "(nat \<Rightarrow> bool) \<Rightarrow> (string \<Rightarrow> string) \<Rightarrow> db \<Rightarrow> exn option \<times> db" where
  "init_db fails generate_password_hash d =
    (case (if fetchone (select_where (\<lambda>_ u. username u = ''admin'') (users d)) = None
           then transaction fails 0
                  [insert_user \<lparr>username = ''admin'', email = ''admin@bookhive.com'',
                     password = generate_password_hash ''adminpass'',
                     first_name = Some ''Admin'', last_name = Some ''User'',
                     is_admin = True, is_librarian = False, is_approved = True\<rparr>] d
           else Inr d) of
       Inl e \<Rightarrow> (Some e, d)
     | Inr d1 \<Rightarrow>
       (case (if fetchone (select_where (\<lambda>_ u. username u = ''librarian'') (users d1)) = None
              then transaction fails 2
                     [insert_user \<lparr>username = ''librarian'', email = ''librarian@bookhive.com'',
                        password = generate_password_hash ''libpass'',
                        first_name = Some ''Library'', last_name = Some ''Keeper'',
                        is_admin = False, is_librarian = True, is_approved = True\<rparr>] d1
              else Inr d1) of
          Inl e \<Rightarrow> (Some e, d1)
        | Inr d2 \<Rightarrow>
          (case (if length (rows (books d2)) = 0
                 then transaction fails 4
                        [execute (\<lambda>d. d\<lparr>books :=
                           fold insert_row (selling_books @ borrowing_books) (books d)\<rparr>)] d2
                 else Inr d2) of
             Inl e \<Rightarrow> (Some e, d2)
           | Inr d3 \<Rightarrow> (None, d3))))"

text \<open>
  The states the database file can be in: the empty file, and whatever a start-up or a
  handler leaves behind, with any inputs and any faults.  The decorators and the order in
  which a browser can reach the routes only remove states from this set.
\<close>

inductive reachable :: "db \<Rightarrow> bool" where
  fresh: "reachable empty_db"
| startup: "reachable d \<Longrightarrow> reachable (snd (init_db fails h d))"
| registered: "reachable d \<Longrightarrow> register fails h m un em pw cpw fname lname d = Inr (msgs, d') \<Longrightarrow> reachable d'"
| user_approved: "reachable d \<Longrightarrow> reachable (snd (approve_user fails uid d))"
| user_deleted: "reachable d \<Longrightarrow> reachable (snd (delete_user fails su uid d))"
| book_added: "reachable d \<Longrightarrow> reachable (snd (add_book fails to_float m t a c p pr bc bs d))"
| book_edited: "reachable d \<Longrightarrow> reachable (snd (edit_book fails to_float m bid t a c p pr bc bs d))"
| book_deleted: "reachable d \<Longrightarrow> reachable (snd (delete_book fails bid d))"
| book_donated: "reachable d \<Longrightarrow> reachable (snd (donate_book fails m t a c p d))"
| borrow_requested: "reachable d \<Longrightarrow> reachable (snd (borrow_book fails uid now bid d))"
| purchased: "reachable d \<Longrightarrow> reachable (snd (purchase_book fails uid now bid d))"
| returned: "reachable d \<Longrightarrow> reachable (snd (return_book fails uid now brid d))"
| request_approved: "reachable d \<Longrightarrow> reachable (snd (approve_borrow_request fails now rid d))"
| request_rejected: "reachable d \<Longrightarrow> reachable (snd (reject_borrow_request fails rid d))"

section \<open>Properties of states\<close>

text \<open>\<^verbatim>\<open>id INTEGER PRIMARY KEY\<close>: no two rows of a table share an id.\<close>

definition pk :: "'r table \<Rightarrow> bool" where
  "pk t \<longleftrightarrow> distinct (map fst (rows t))"

definition well_keyed :: "db \<Rightarrow> bool" where
  "well_keyed d \<longleftrightarrow>
     pk (users d) \<and> pk (books d) \<and> pk (orders d) \<and> pk (order_items d) \<and>
     pk (payments d) \<and> pk (borrowed_books d) \<and> pk (borrow_requests d)"

text \<open>The column \<^verbatim>\<open>is_available\<close> mirrors \<^verbatim>\<open>book_status\<close> in every row of the books
  table.\<close>

definition availability_consistent :: "db \<Rightarrow> bool" where
  "availability_consistent d \<longleftrightarrow>
     (\<forall>(i, b) \<in> set (rows (books d)).
        is_available b \<longleftrightarrow> book_status b \<in> set available_statuses)"

text \<open>The rows of borrowed_books with status \<^verbatim>\<open>Borrowed\<close> that reference a book.\<close>

definition active_borrows :: "nat \<Rightarrow> db \<Rightarrow> (nat \<times> borrowed_book) list" where
  "active_borrows book_id d =
     select_where (\<lambda>_ r. bb_book_id r = book_id \<and> bb_status r = ''Borrowed'') (borrowed_books d)"

section \<open>Example states\<close>

text \<open>Fault patterns: none, and a single failing statement.\<close>

definition no_faults :: "nat \<Rightarrow> bool" where
  "no_faults k = False"

definition fault_at :: "nat \<Rightarrow> nat \<Rightarrow> bool" where
  "fault_at n k \<longleftrightarrow> k = n"

text \<open>Two stand-ins for \<^verbatim>\<open>check_password_hash\<close>: one accepts every password, one
  none.\<close>

definition accept_all :: "string \<Rightarrow> string \<Rightarrow> bool" where
  "accept_all h p = True"

definition accept_none :: "string \<Rightarrow> string \<Rightarrow> bool" where
  "accept_none h p = False"

text \<open>
  A small library: the two default accounts, two approved readers (alice, id 3, and bob,
  id 4) and a reader still awaiting approval (carol, id 5); a borrow-only book on offer (1),
  a book for sale (2) and a borrow-only book that is out on loan to bob (3); three pending
  requests, for book 1, for book 3, and for a book id (9) that no row has.
\<close>

definition example_users :: "user table" where
  "example_users = \<lparr>rows =
     [(1, \<lparr>username = ''admin'', email = ''admin@bookhive.com'', password = ''h-admin'',
           first_name = Some ''Admin'', last_name = Some ''User'',
           is_admin = True, is_librarian = False, is_approved = True\<rparr>),
      (2, \<lparr>username = ''librarian'', email = ''librarian@bookhive.com'', password = ''h-lib'',
           first_name = Some ''Library'', last_name = Some ''Keeper'',
           is_admin = False, is_librarian = True, is_approved = True\<rparr>),
      (3, \<lparr>username = ''alice'', email = ''alice@example.org'', password = ''h-alice'',
           first_name = None, last_name = None,
           is_admin = False, is_librarian = False, is_approved = True\<rparr>),
      (4, \<lparr>username = ''bob'', email = ''bob@example.org'', password = ''h-bob'',
           first_name = None, last_name = None,
           is_admin = False, is_librarian = False, is_approved = True\<rparr>),
      (5, \<lparr>username = ''carol'', email = ''carol@example.org'', password = ''h-carol'',
           first_name = None, last_name = None,
           is_admin = False, is_librarian = False, is_approved = False\<rparr>)],
     seq = 5\<rparr>"

definition example_books :: "book table" where
  "example_books = \<lparr>rows =
     [(1, book_row ''Basic Algebra'' ''Math Whiz'' ''Education'' ''Equation Books''
            0.00 ''New'' ''Available'' True),
      (2, book_row ''Coding for Beginners'' ''Dev Guru'' ''Technology'' ''Code Publishers''
            22.00 ''New'' ''Available'' True),
      (3, book_row ''World Atlas 2024'' ''Cartography Dept.'' ''Reference'' ''Map Makers Inc.''
            0.00 ''New'' ''Borrowed'' False)],
     seq = 3\<rparr>"

definition example_requests :: "borrow_request table" where
  "example_requests = \<lparr>rows =
     [(1, \<lparr>br_user_id = 3, br_book_id = 1, request_date = ''2024-05-01T10:00:00'',
           br_status = ''Pending''\<rparr>),
      (2, \<lparr>br_user_id = 3, br_book_id = 3, request_date = ''2024-05-01T10:05:00'',
           br_status = ''Pending''\<rparr>),
      (3, \<lparr>br_user_id = 4, br_book_id = 9, request_date = ''2024-05-01T10:10:00'',
           br_status = ''Pending''\<rparr>)],
     seq = 3\<rparr>"

definition example_borrowed :: "borrowed_book table" where
  "example_borrowed = \<lparr>rows =
     [(1, \<lparr>bb_user_id = 4, bb_book_id = 3, borrow_date = ''2024-04-30T09:00:00'',
           return_date = None, bb_status = ''Borrowed''\<rparr>)],
     seq = 1\<rparr>"

definition example_db :: db where
  "example_db = \<lparr>users = example_users, books = example_books, orders = empty_table,
     order_items = empty_table, payments = empty_table, borrowed_books = example_borrowed,
     borrow_requests = example_requests\<rparr>"

text \<open>A stand-in for \<^verbatim>\<open>generate_password_hash\<close>, and the database after the first
  start of the application on an empty file.\<close>

definition example_hash :: "string \<Rightarrow> string" where
  "example_hash p = ''h-'' @ p"

definition started_db :: db where
  "started_db = snd (init_db no_faults example_hash empty_db)"

text \<open>A stand-in for \<^verbatim>\<open>check_password_hash\<close> that fits \<open>example_hash\<close>: it
  accepts exactly the password the hash was made from.\<close>

definition example_check :: "string \<Rightarrow> string \<Rightarrow> bool" where
  "example_check h p \<longleftrightarrow> h = example_hash p"

text \<open>The database a call of \<^verbatim>\<open>register\<close> leaves: the one it returns, or the one it
  was given when an exception escaped.\<close>

definition db_of :: "exn + outcome \<Rightarrow> db \<Rightarrow> db" where
  "db_of r d = (case r of Inr (_, d') \<Rightarrow> d' | Inl _ \<Rightarrow> d)"

text \<open>
  After the first start two people register.  The first (id 3) chooses as username the
  text \<^verbatim>\<open>dave@example.org\<close>; the second, dave (id 4), registers that address as his
  email.  The administrator approves the first account only.
\<close>

definition first_registered_db :: db where
  "first_registered_db =
     db_of (register no_faults example_hash POST ''dave@example.org'' ''mallory@example.org''
              ''pw-m'' ''pw-m'' None None started_db) started_db"

definition shadow_db :: db where
  "shadow_db =
     snd (approve_user no_faults 3
       (db_of (register no_faults example_hash POST ''dave'' ''dave@example.org''
                 ''pw-d'' ''pw-d'' None None first_registered_db) first_registered_db))"

text \<open>A stand-in for \<^verbatim>\<open>float\<close> that reads the two prices the examples type.\<close>

definition example_float :: "string \<Rightarrow> real option" where
  "example_float s = (if s = ''0'' then Some 0 else if s = ''22'' then Some 22 else None)"

text \<open>
  The example library two steps later: a librarian edits book 3, which is still out on
  loan to bob, back to status \<^verbatim>\<open>Available\<close>, and alice's pending request 2 for it is
  then approved.  Book 3 now has two borrowed_books rows with status \<^verbatim>\<open>Borrowed\<close>,
  bob's and alice's.
\<close>

definition double_loan_db :: db where
  "double_loan_db =
     snd (approve_borrow_request no_faults ''2024-05-03T09:00:00'' 2
       (snd (edit_book no_faults example_float POST 3 ''World Atlas 2024'' ''Cartography Dept.''
               ''Reference'' ''Map Makers Inc.'' ''0'' ''New'' ''Available'' example_db)))"

section \<open>Queries, fresh ids and transactions\<close>

lemma filter_absent_id:
  "i \<notin> fst ` set xs \<Longrightarrow> filter (\<lambda>(j, s). j = i \<and> Q j s) xs = []"
  by (induction xs) auto

lemma fetchone_by_id:
  assumes "pk t" and "(i, r) \<in> set (rows t)"
  shows "fetchone (select_where (\<lambda>j s. j = i \<and> Q s) t) = (if Q r then Some (i, r) else None)"
proof -
  have "distinct (map fst xs) \<Longrightarrow> (i, r) \<in> set xs \<Longrightarrow>
        fetchone (filter (\<lambda>(j, s). j = i \<and> Q s) xs) = (if Q r then Some (i, r) else None)" for xs
  proof (induction xs)
    case Nil
    then show ?case by simp
  next
    case (Cons x xs)
    show ?case
    proof (cases "fst x = i")
      case True
      with Cons.prems have "i \<notin> fst ` set xs" by auto
      with Cons.prems True have x: "x = (i, r)" by (cases x) force
      from \<open>i \<notin> fst ` set xs\<close> have "filter (\<lambda>(j, s). j = i \<and> Q s) xs = []"
        by (rule filter_absent_id)
      with x show ?thesis by (simp add: fetchone_def)
    next
      case False
      with Cons.prems have "(i, r) \<in> set xs" by auto
      moreover from Cons.prems have "distinct (map fst xs)" by simp
      ultimately have "fetchone (filter (\<lambda>(j, s). j = i \<and> Q s) xs) = (if Q r then Some (i, r) else None)"
        by (rule Cons.IH[rotated])
      with False show ?thesis by (cases x) (simp add: fetchone_def)
    qed
  qed
  with assms show ?thesis by (simp add: pk_def select_where_def)
qed

lemma fetchone_by_id_only:
  assumes "pk t" and "(i, r) \<in> set (rows t)"
  shows "fetchone (select_where (\<lambda>j _. j = i) t) = Some (i, r)"
  using fetchone_by_id[OF assms, of "\<lambda>_. True"] by simp

lemma fetchone_absent_id:
  "i \<notin> fst ` set (rows t) \<Longrightarrow> fetchone (select_where (\<lambda>j s. j = i \<and> Q j s) t) = None"
  by (simp add: select_where_def filter_absent_id fetchone_def)

lemma execute_Inr: "execute f d = Inr (f d)"
  by (simp add: execute_def)

lemma transaction_execute_ok:
  "\<forall>j \<le> length fs. \<not> fails (k + j) \<Longrightarrow>
   transaction fails k (map execute fs) d = Inr (fold (\<lambda>f. f) fs d)"
proof (induction fs arbitrary: k d)
  case Nil
  then show ?case by simp
next
  case (Cons f fs)
  from Cons.prems have "\<not> fails k" by (metis add.right_neutral le0)
  moreover have "\<forall>j \<le> length fs. \<not> fails (Suc k + j)"
  proof (intro allI impI)
    fix j assume "j \<le> length fs"
    then have "Suc j \<le> length (f # fs)" by simp
    with Cons.prems have "\<not> fails (k + Suc j)" by blast
    then show "\<not> fails (Suc k + j)" by simp
  qed
  ultimately show ?case using Cons.IH[of "Suc k" "f d"] by (simp add: execute_Inr)
qed

lemma transaction_execute_fault:
  "\<exists>j \<le> length fs. fails (k + j) \<Longrightarrow>
   transaction fails k (map execute fs) d = Inl OperationalError"
proof (induction fs arbitrary: k d)
  case Nil
  then show ?case by simp
next
  case (Cons f fs)
  show ?case
  proof (cases "fails k")
    case True
    then show ?thesis by simp
  next
    case False
    from Cons.prems obtain j where j: "j \<le> length (f # fs)" "fails (k + j)" by blast
    with False have "j \<noteq> 0" by (cases j) auto
    then obtain j' where "j = Suc j'" by (cases j) auto
    with j have "\<exists>j \<le> length fs. fails (Suc k + j)" by auto
    then have "transaction fails (Suc k) (map execute fs) (f d) = Inl OperationalError"
      by (rule Cons.IH)
    moreover from False have "transaction fails k (map execute (f # fs)) d =
        transaction fails (Suc k) (map execute fs) (f d)"
      by (simp add: execute_Inr)
    ultimately show ?thesis by (rule ssubst[rotated])
  qed
qed

lemma transaction_execute_cases:
  "transaction fails k (map execute fs) d = Inl OperationalError \<or>
   transaction fails k (map execute fs) d = Inr (fold (\<lambda>f. f) fs d)"
  using transaction_execute_ok[of fs fails k d] transaction_execute_fault[of fs fails k d]
  by blast

lemma fold_max_ge_init: "(s::nat) \<le> fold max xs s"
proof (induction xs arbitrary: s)
  case Nil
  then show ?case by simp
next
  case (Cons x xs)
  have "s \<le> max x s" by simp
  also have "max x s \<le> fold max xs (max x s)" by (rule Cons.IH)
  finally show ?case by simp
qed

lemma fold_max_ge_elem: "(i::nat) \<in> set xs \<Longrightarrow> i \<le> fold max xs s"
proof (induction xs arbitrary: s)
  case Nil
  then show ?case by simp
next
  case (Cons x xs)
  show ?case
  proof (cases "i = x")
    case True
    have "max x s \<le> fold max xs (max x s)" by (rule fold_max_ge_init)
    with True show ?thesis by simp
  next
    case False
    with Cons show ?thesis by simp
  qed
qed

lemma next_id_fresh: "next_id t \<notin> fst ` set (rows t)"
proof
  assume "next_id t \<in> fst ` set (rows t)"
  then have "next_id t \<in> set (map fst (rows t))" by simp
  then have "next_id t \<le> fold max (map fst (rows t)) (seq t)" by (rule fold_max_ge_elem)
  then show False by (simp add: next_id_def)
qed

section \<open>Approving a borrow request\<close>

text \<open>
  Claim C1.  Take a pending borrow request \<open>rid\<close> whose book is on offer (status
  \<^verbatim>\<open>Available\<close> or \<^verbatim>\<open>On Shelves\<close>).  The approval issues three writes and a commit.  If
  none of the four raises, the approval reports success and leaves exactly this: the
  book's row has status \<^verbatim>\<open>Borrowed\<close> and \<^verbatim>\<open>is_available\<close> false and every other book row is
  as before; the borrowed_books table is the old one followed by one new row, under an id
  no old row has, for the request's user and book with status \<^verbatim>\<open>Borrowed\<close> and the
  current time; the request's row has status \<^verbatim>\<open>Approved\<close> and every other request is as
  before; users, orders, order items and payments are untouched.  If any of the four
  raises, the approval reports the exception and the database is exactly the one it
  started from.
\<close>

theorem approve_borrow_request_all_or_nothing:
  assumes "pk (borrow_requests d)" and "pk (books d)"
    and "(rid, req) \<in> set (rows (borrow_requests d))" and "br_status req = ''Pending''"
    and "(br_book_id req, bk) \<in> set (rows (books d))"
    and "book_status bk \<in> set available_statuses"
  shows "((\<forall>k\<le>3. \<not> fails k) \<longrightarrow>
          (\<exists>d'. approve_borrow_request fails now rid d = ([(Request_approved (title bk), success)], d') \<and>
            rows (books d') =
              map (\<lambda>(i, b). if i = br_book_id req
                     then (i, b\<lparr>book_status := ''Borrowed'', is_available := False\<rparr>) else (i, b))
                (rows (books d)) \<and>
            (\<exists>new_id. new_id \<notin> fst ` set (rows (borrowed_books d)) \<and>
               rows (borrowed_books d') = rows (borrowed_books d) @
                 [(new_id, \<lparr>bb_user_id = br_user_id req, bb_book_id = br_book_id req,
                    borrow_date = now, return_date = None, bb_status = ''Borrowed''\<rparr>)]) \<and>
            rows (borrow_requests d') =
              map (\<lambda>(i, r). if i = rid then (i, r\<lparr>br_status := ''Approved''\<rparr>) else (i, r))
                (rows (borrow_requests d)) \<and>
            users d' = users d \<and> orders d' = orders d \<and> order_items d' = order_items d \<and>
            payments d' = payments d))
       \<and> ((\<exists>k\<le>3. fails k) \<longrightarrow>
            approve_borrow_request fails now rid d =
              ([(Error_approving_request OperationalError, error)], d))"
proof -
  have sel_req: "fetchone (select_where (\<lambda>i r. i = rid \<and> br_status r = ''Pending'')
      (borrow_requests d)) = Some (rid, req)"
    using fetchone_by_id[OF assms(1) assms(3), of "\<lambda>r. br_status r = ''Pending''"] assms(4)
    by simp
  have sel_book: "fetchone (select_where (\<lambda>i _. i = br_book_id req) (books d)) =
      Some (br_book_id req, bk)"
    using assms(2) assms(5) by (rule fetchone_by_id_only)
  define fs :: "(db \<Rightarrow> db) list" where "fs =
    [\<lambda>d. d\<lparr>books := update_where (\<lambda>i _. i = br_book_id req)
            (\<lambda>b. b\<lparr>book_status := ''Borrowed'', is_available := False\<rparr>) (books d)\<rparr>,
     \<lambda>d. d\<lparr>borrowed_books := insert_row
            \<lparr>bb_user_id = br_user_id req, bb_book_id = br_book_id req, borrow_date = now,
             return_date = None, bb_status = ''Borrowed''\<rparr> (borrowed_books d)\<rparr>,
     \<lambda>d. d\<lparr>borrow_requests := update_where (\<lambda>i _. i = rid)
            (\<lambda>r. r\<lparr>br_status := ''Approved''\<rparr>) (borrow_requests d)\<rparr>]"
  have len: "length fs = 3" by (simp add: fs_def)
  have unfold: "approve_borrow_request fails now rid d =
      (case transaction fails 0 (map execute fs) d of
         Inr d' \<Rightarrow> ([(Request_approved (title bk), success)], d')
       | Inl e \<Rightarrow> ([(Error_approving_request e, error)], d))"
    using assms(6) by (simp add: approve_borrow_request_def sel_req sel_book fs_def Let_def del: transaction.simps)
  have ok: "\<forall>k\<le>3. \<not> fails k \<Longrightarrow>
      transaction fails 0 (map execute fs) d = Inr (fold (\<lambda>f. f) fs d)"
    using transaction_execute_ok[of fs fails 0 d] by (simp add: len)
  have bad: "\<exists>k\<le>3. fails k \<Longrightarrow> transaction fails 0 (map execute fs) d = Inl OperationalError"
    using transaction_execute_fault[of fs fails 0 d] by (simp add: len)
  have fresh: "next_id (borrowed_books d) \<notin> fst ` set (rows (borrowed_books d))"
    by (rule next_id_fresh)
  show ?thesis
  proof (intro conjI impI)
    assume "\<forall>k\<le>3. \<not> fails k"
    then have "approve_borrow_request fails now rid d =
        ([(Request_approved (title bk), success)], fold (\<lambda>f. f) fs d)"
      by (simp add: unfold ok)
    then show "\<exists>d'. approve_borrow_request fails now rid d =
        ([(Request_approved (title bk), success)], d') \<and>
      rows (books d') =
        map (\<lambda>(i, b). if i = br_book_id req
               then (i, b\<lparr>book_status := ''Borrowed'', is_available := False\<rparr>) else (i, b))
          (rows (books d)) \<and>
      (\<exists>new_id. new_id \<notin> fst ` set (rows (borrowed_books d)) \<and>
         rows (borrowed_books d') = rows (borrowed_books d) @
           [(new_id, \<lparr>bb_user_id = br_user_id req, bb_book_id = br_book_id req,
              borrow_date = now, return_date = None, bb_status = ''Borrowed''\<rparr>)]) \<and>
      rows (borrow_requests d') =
        map (\<lambda>(i, r). if i = rid then (i, r\<lparr>br_status := ''Approved''\<rparr>) else (i, r))
          (rows (borrow_requests d)) \<and>
      users d' = users d \<and> orders d' = orders d \<and> order_items d' = order_items d \<and>
      payments d' = payments d"
      using fresh by (auto simp: fs_def update_where_def insert_row_def)
  next
    assume "\<exists>k\<le>3. fails k"
    then show "approve_borrow_request fails now rid d =
        ([(Error_approving_request OperationalError, error)], d)"
      by (simp add: unfold bad)
  qed
qed

text \<open>Unfolding the example states.\<close>

lemmas example_defs = example_db_def example_users_def example_books_def example_requests_def
  example_borrowed_def empty_table_def book_row_def

text \<open>In the example library request 1 is approved when nothing fails, and nothing
  persists when the third write fails.\<close>

theorem approve_borrow_request_all_or_nothing_witness:
  "pk (borrow_requests example_db) \<and> pk (books example_db) \<and>
   (1, \<lparr>br_user_id = 3, br_book_id = 1, request_date = ''2024-05-01T10:00:00'',
        br_status = ''Pending''\<rparr>) \<in> set (rows (borrow_requests example_db)) \<and>
   (1, book_row ''Basic Algebra'' ''Math Whiz'' ''Education'' ''Equation Books''
         0.00 ''New'' ''Available'' True) \<in> set (rows (books example_db)) \<and>
   fst (approve_borrow_request no_faults ''2024-05-02T08:00:00'' 1 example_db) =
     [(Request_approved ''Basic Algebra'', success)] \<and>
   approve_borrow_request (fault_at 2) ''2024-05-02T08:00:00'' 1 example_db =
     ([(Error_approving_request OperationalError, error)], example_db)"
proof -
  let ?req = "\<lparr>br_user_id = 3, br_book_id = 1, request_date = ''2024-05-01T10:00:00'',
        br_status = ''Pending''\<rparr>"
  let ?bk = "book_row ''Basic Algebra'' ''Math Whiz'' ''Education'' ''Equation Books''
         0.00 ''New'' ''Available'' True"
  have h1: "pk (borrow_requests example_db)" by (simp add: pk_def example_defs)
  have h2: "pk (books example_db)" by (simp add: pk_def example_defs)
  have h3: "(1, ?req) \<in> set (rows (borrow_requests example_db))" by (simp add: example_defs)
  have h4: "br_status ?req = ''Pending''" by simp
  have h5: "(br_book_id ?req, ?bk) \<in> set (rows (books example_db))" by (simp add: example_defs)
  have h6: "book_status ?bk \<in> set available_statuses"
    by (simp add: book_row_def available_statuses_def)
  note inst = approve_borrow_request_all_or_nothing[OF h1 h2 h3 h4 h5 h6]
  have a: "\<forall>k\<le>3. \<not> no_faults k" by (simp add: no_faults_def)
  have b: "\<exists>k\<le>3. fault_at 2 k" by (auto simp: fault_at_def)
  from inst[of no_faults "''2024-05-02T08:00:00''"] a
  have "fst (approve_borrow_request no_faults ''2024-05-02T08:00:00'' 1 example_db) =
     [(Request_approved ''Basic Algebra'', success)]"
    by (auto simp: book_row_def)
  moreover from inst[of "fault_at 2" "''2024-05-02T08:00:00''"] b
  have "approve_borrow_request (fault_at 2) ''2024-05-02T08:00:00'' 1 example_db =
     ([(Error_approving_request OperationalError, error)], example_db)"
    by blast
  ultimately show ?thesis using h1 h2 h3 h5 by simp
qed

text \<open>
  Claim C2.  Take a pending borrow request \<open>rid\<close> whose book row exists with a status
  other than \<^verbatim>\<open>Available\<close> and \<^verbatim>\<open>On Shelves\<close>.  Whatever fails, the approval first
  reports that the book is no longer available (BookUnavailableError), leaves the books
  and borrowed_books tables as they were, and leaves no row of that request with status
  \<^verbatim>\<open>Approved\<close>.  When neither the update nor its commit raises, that report is the only
  one, the request's row has status \<^verbatim>\<open>Rejected\<close>, and nothing but the status of that
  request has changed in the whole database.
\<close>

theorem approve_unavailable_book_rejects:
  assumes "pk (borrow_requests d)" and "pk (books d)"
    and "(rid, req) \<in> set (rows (borrow_requests d))" and "br_status req = ''Pending''"
    and "(br_book_id req, bk) \<in> set (rows (books d))"
    and "book_status bk \<notin> set available_statuses"
  shows "(\<exists>more. fst (approve_borrow_request fails now rid d) =
             (Book_no_longer_available (title bk), error) # more) \<and>
         books (snd (approve_borrow_request fails now rid d)) = books d \<and>
         borrowed_books (snd (approve_borrow_request fails now rid d)) = borrowed_books d \<and>
         (\<forall>r'. (rid, r') \<in> set (rows (borrow_requests (snd (approve_borrow_request fails now rid d))))
               \<longrightarrow> br_status r' \<noteq> ''Approved'') \<and>
         (\<not> fails 0 \<and> \<not> fails 1 \<longrightarrow>
            approve_borrow_request fails now rid d =
              ([(Book_no_longer_available (title bk), error)],
               d\<lparr>borrow_requests := (borrow_requests d)\<lparr>rows :=
                    map (\<lambda>(i, r). if i = rid then (i, r\<lparr>br_status := ''Rejected''\<rparr>) else (i, r))
                      (rows (borrow_requests d))\<rparr>\<rparr>) \<and>
            (rid, req\<lparr>br_status := ''Rejected''\<rparr>) \<in>
              set (rows (borrow_requests (snd (approve_borrow_request fails now rid d)))))"
proof -
  have sel_req: "fetchone (select_where (\<lambda>i r. i = rid \<and> br_status r = ''Pending'')
      (borrow_requests d)) = Some (rid, req)"
    using fetchone_by_id[OF assms(1) assms(3), of "\<lambda>r. br_status r = ''Pending''"] assms(4)
    by simp
  have sel_book: "fetchone (select_where (\<lambda>i _. i = br_book_id req) (books d)) =
      Some (br_book_id req, bk)"
    using assms(2) assms(5) by (rule fetchone_by_id_only)
  define d' where "d' = d\<lparr>borrow_requests := (borrow_requests d)\<lparr>rows :=
      map (\<lambda>(i, r). if i = rid then (i, r\<lparr>br_status := ''Rejected''\<rparr>) else (i, r))
        (rows (borrow_requests d))\<rparr>\<rparr>"
  have out: "approve_borrow_request fails now rid d =
      (if fails 0 \<or> fails 1
       then ([(Book_no_longer_available (title bk), error),
              (Error_approving_request OperationalError, error)], d)
       else ([(Book_no_longer_available (title bk), error)], d'))"
    using assms(6)
    by (simp add: approve_borrow_request_def sel_req sel_book Let_def execute_Inr
        update_where_def d'_def)
  have pending: "\<forall>r'. (rid, r') \<in> set (rows (borrow_requests d)) \<longrightarrow> br_status r' \<noteq> ''Approved''"
  proof (intro allI impI)
    fix r' assume "(rid, r') \<in> set (rows (borrow_requests d))"
    with assms(1) assms(3) have "r' = req"
      by (metis pk_def eq_key_imp_eq_value)
    with assms(4) show "br_status r' \<noteq> ''Approved''" by simp
  qed
  have rejected: "\<forall>r'. (rid, r') \<in> set (rows (borrow_requests d')) \<longrightarrow> br_status r' \<noteq> ''Approved''"
    by (auto simp: d'_def split: if_splits)
  have member: "(rid, req\<lparr>br_status := ''Rejected''\<rparr>) \<in> set (rows (borrow_requests d'))"
    using assms(3) by (force simp: d'_def)
  show ?thesis
  proof (cases "fails 0 \<or> fails 1")
    case True
    with out have "approve_borrow_request fails now rid d =
        ([(Book_no_longer_available (title bk), error),
          (Error_approving_request OperationalError, error)], d)" by simp
    with True pending show ?thesis by auto
  next
    case False
    with out have "approve_borrow_request fails now rid d =
        ([(Book_no_longer_available (title bk), error)], d')" by simp
    with False rejected member show ?thesis by (simp add: d'_def)
  qed
qed

text \<open>Request 2 of the example library asks for the book that is out on loan.\<close>

theorem approve_unavailable_book_rejects_witness:
  "pk (borrow_requests example_db) \<and> pk (books example_db) \<and>
   (2, \<lparr>br_user_id = 3, br_book_id = 3, request_date = ''2024-05-01T10:05:00'',
        br_status = ''Pending''\<rparr>) \<in> set (rows (borrow_requests example_db)) \<and>
   (3, book_row ''World Atlas 2024'' ''Cartography Dept.'' ''Reference'' ''Map Makers Inc.''
         0.00 ''New'' ''Borrowed'' False) \<in> set (rows (books example_db)) \<and>
   fst (approve_borrow_request no_faults ''2024-05-02T08:00:00'' 2 example_db) =
     [(Book_no_longer_available ''World Atlas 2024'', error)] \<and>
   (2, \<lparr>br_user_id = 3, br_book_id = 3, request_date = ''2024-05-01T10:05:00'',
        br_status = ''Rejected''\<rparr>) \<in>
     set (rows (borrow_requests (snd (approve_borrow_request no_faults ''2024-05-02T08:00:00'' 2
       example_db)))) \<and>
   books (snd (approve_borrow_request no_faults ''2024-05-02T08:00:00'' 2 example_db)) =
     books example_db"
proof -
  let ?req = "\<lparr>br_user_id = 3, br_book_id = 3, request_date = ''2024-05-01T10:05:00'',
        br_status = ''Pending''\<rparr>"
  let ?bk = "book_row ''World Atlas 2024'' ''Cartography Dept.'' ''Reference'' ''Map Makers Inc.''
         0.00 ''New'' ''Borrowed'' False"
  have h1: "pk (borrow_requests example_db)" by (simp add: pk_def example_defs)
  have h2: "pk (books example_db)" by (simp add: pk_def example_defs)
  have h3: "(2, ?req) \<in> set (rows (borrow_requests example_db))" by (simp add: example_defs)
  have h4: "br_status ?req = ''Pending''" by simp
  have h5: "(br_book_id ?req, ?bk) \<in> set (rows (books example_db))" by (simp add: example_defs)
  have h6: "book_status ?bk \<notin> set available_statuses"
    by (simp add: book_row_def available_statuses_def)
  have nf: "\<not> no_faults 0 \<and> \<not> no_faults 1" by (simp add: no_faults_def)
  note inst = approve_unavailable_book_rejects[OF h1 h2 h3 h4 h5 h6, of no_faults
      "''2024-05-02T08:00:00''"]
  from inst nf
  have "approve_borrow_request no_faults ''2024-05-02T08:00:00'' 2 example_db =
      ([(Book_no_longer_available (title ?bk), error)],
       example_db\<lparr>borrow_requests := (borrow_requests example_db)\<lparr>rows :=
          map (\<lambda>(i, r). if i = 2 then (i, r\<lparr>br_status := ''Rejected''\<rparr>) else (i, r))
            (rows (borrow_requests example_db))\<rparr>\<rparr>)"
    by blast
  then have a: "fst (approve_borrow_request no_faults ''2024-05-02T08:00:00'' 2 example_db) =
      [(Book_no_longer_available ''World Atlas 2024'', error)]"
    by (simp add: book_row_def)
  from inst nf
  have "(2, ?req\<lparr>br_status := ''Rejected''\<rparr>) \<in> set (rows (borrow_requests
      (snd (approve_borrow_request no_faults ''2024-05-02T08:00:00'' 2 example_db))))"
    by blast
  then have b: "(2, \<lparr>br_user_id = 3, br_book_id = 3, request_date = ''2024-05-01T10:05:00'',
        br_status = ''Rejected''\<rparr>) \<in> set (rows (borrow_requests
      (snd (approve_borrow_request no_faults ''2024-05-02T08:00:00'' 2 example_db))))"
    by simp
  from inst
  have c: "books (snd (approve_borrow_request no_faults ''2024-05-02T08:00:00'' 2 example_db)) =
      books example_db"
    by blast
  from h5 have h5': "(3, ?bk) \<in> set (rows (books example_db))" by simp
  from h1 h2 h3 h5' a b c show ?thesis by (intro conjI)
qed

text \<open>
  Claim C9.  Take a pending borrow request whose \<^verbatim>\<open>book_id\<close> is the id of no books row.
  Whatever fails, the approval reports the \<^verbatim>\<open>TypeError\<close> raised by subscripting the
  missing row and returns the database it was given: the request is not rejected, it
  stays pending, and every table is unchanged.
\<close>

theorem approve_missing_book_rolls_back:
  assumes "pk (borrow_requests d)"
    and "(rid, req) \<in> set (rows (borrow_requests d))" and "br_status req = ''Pending''"
    and "br_book_id req \<notin> fst ` set (rows (books d))"
  shows "approve_borrow_request fails now rid d =
           ([(Error_approving_request TypeError, error)], d)"
proof -
  have sel_req: "fetchone (select_where (\<lambda>i r. i = rid \<and> br_status r = ''Pending'')
      (borrow_requests d)) = Some (rid, req)"
    using fetchone_by_id[OF assms(1) assms(2), of "\<lambda>r. br_status r = ''Pending''"] assms(3)
    by simp
  have sel_book: "fetchone (select_where (\<lambda>i _. i = br_book_id req) (books d)) = None"
    using fetchone_absent_id[OF assms(4), of "\<lambda>_ _. True"] by simp
  show ?thesis
    by (simp add: approve_borrow_request_def sel_req sel_book Let_def)
qed

text \<open>Request 3 of the example library names book 9, which does not exist.\<close>

theorem approve_missing_book_rolls_back_witness:
  "pk (borrow_requests example_db) \<and>
   (3, \<lparr>br_user_id = 4, br_book_id = 9, request_date = ''2024-05-01T10:10:00'',
        br_status = ''Pending''\<rparr>) \<in> set (rows (borrow_requests example_db)) \<and>
   9 \<notin> fst ` set (rows (books example_db)) \<and>
   approve_borrow_request no_faults ''2024-05-02T08:00:00'' 3 example_db =
     ([(Error_approving_request TypeError, error)], example_db)"
proof -
  let ?req = "\<lparr>br_user_id = 4, br_book_id = 9, request_date = ''2024-05-01T10:10:00'',
        br_status = ''Pending''\<rparr>"
  have h1: "pk (borrow_requests example_db)" by (simp add: pk_def example_defs)
  have h2: "(3, ?req) \<in> set (rows (borrow_requests example_db))" by (simp add: example_defs)
  have h3: "br_status ?req = ''Pending''" by simp
  have h4: "br_book_id ?req \<notin> fst ` set (rows (books example_db))" by (simp add: example_defs)
  from approve_missing_book_rolls_back[OF h1 h2 h3 h4, of no_faults "''2024-05-02T08:00:00''"]
  show ?thesis using h1 h2 h4 by simp
qed

section \<open>Deleting a protected account\<close>

text \<open>
  Claim C4, as the code has it.  For a target whose \<^verbatim>\<open>is_admin\<close> or \<^verbatim>\<open>is_librarian\<close>
  flag is set, \<^verbatim>\<open>delete_user\<close> changes nothing, whoever calls it and whatever fails.
  What it reports depends on the caller: the self-deletion check of line 829 comes first,
  so the acting administrator's own id is answered with SelfDeleteError, and every other
  caller with ProtectedAccountError.
\<close>

theorem delete_user_protected:
  assumes "pk (users d)" and "(uid, u) \<in> set (rows (users d))"
    and "is_admin u \<or> is_librarian u"
  shows "delete_user fails acting uid d =
           (if acting = Some uid then ([(Cannot_delete_own, error)], d)
            else ([(Cannot_delete_protected, error)], d))"
proof -
  have "fetchone (select_where (\<lambda>i _. i = uid) (users d)) = Some (uid, u)"
    using assms(1) assms(2) by (rule fetchone_by_id_only)
  with assms(3) show ?thesis
    by (auto simp: delete_user_def Let_def)
qed

text \<open>The librarian of the example library (id 2), deleted by the administrator (id 1).\<close>

theorem delete_user_protected_witness:
  "pk (users example_db) \<and>
   delete_user no_faults (Some 1) 2 example_db = ([(Cannot_delete_protected, error)], example_db)"
proof -
  let ?u = "\<lparr>username = ''librarian'', email = ''librarian@bookhive.com'', password = ''h-lib'',
           first_name = Some ''Library'', last_name = Some ''Keeper'',
           is_admin = False, is_librarian = True, is_approved = True\<rparr>"
  have h1: "pk (users example_db)" by (simp add: pk_def example_defs)
  have h2: "(2, ?u) \<in> set (rows (users example_db))" by (simp add: example_defs)
  have h3: "is_admin ?u \<or> is_librarian ?u" by simp
  from delete_user_protected[OF h1 h2 h3, of no_faults "Some 1"] h1
  show ?thesis by simp
qed

text \<open>
  Claim C4 as stated fails when the acting administrator is the target: the administrator
  of the example library (id 1, \<^verbatim>\<open>is_admin\<close> set) deleting the own account is told
  "You cannot delete your own admin account", not "Cannot delete an administrator or
  librarian account".
\<close>

theorem delete_user_protected_counterexample:
  "(1, \<lparr>username = ''admin'', email = ''admin@bookhive.com'', password = ''h-admin'',
        first_name = Some ''Admin'', last_name = Some ''User'',
        is_admin = True, is_librarian = False, is_approved = True\<rparr>)
     \<in> set (rows (users example_db)) \<and>
   fst (delete_user no_faults (Some 1) 1 example_db) = [(Cannot_delete_own, error)] \<and>
   fst (delete_user no_faults (Some 1) 1 example_db) \<noteq> [(Cannot_delete_protected, error)]"
  by (simp add: delete_user_def example_defs)

section \<open>Purchasing a borrow-only book\<close>

text \<open>
  Claim C6.  For a book whose price is 0, \<^verbatim>\<open>purchase_book\<close> reports that the book is
  not found or not available for purchase and returns the database it was given, whatever
  fails: no order, no order item, and the book row as it was.
\<close>

theorem purchase_book_price_zero:
  assumes "pk (books d)" and "(bid, bk) \<in> set (rows (books d))" and "price bk = 0"
  shows "purchase_book fails uid now bid d = ([(Not_available_for_purchase, error)], d)"
proof -
  have "fetchone (select_where
          (\<lambda>i b. i = bid \<and> price b > 0 \<and> book_status b \<in> set available_statuses) (books d)) = None"
    using fetchone_by_id[OF assms(1) assms(2),
        of "\<lambda>b. price b > 0 \<and> book_status b \<in> set available_statuses"] assms(3)
    by simp
  then show ?thesis by (simp add: purchase_book_def)
qed

text \<open>Book 1 of the example library is free and on offer.\<close>

theorem purchase_book_price_zero_witness:
  "pk (books example_db) \<and>
   (1, book_row ''Basic Algebra'' ''Math Whiz'' ''Education'' ''Equation Books''
         0.00 ''New'' ''Available'' True) \<in> set (rows (books example_db)) \<and>
   purchase_book no_faults 3 ''2024-05-02T08:00:00'' 1 example_db =
     ([(Not_available_for_purchase, error)], example_db)"
proof -
  let ?bk = "book_row ''Basic Algebra'' ''Math Whiz'' ''Education'' ''Equation Books''
         0.00 ''New'' ''Available'' True"
  have h1: "pk (books example_db)" by (simp add: pk_def example_defs)
  have h2: "(1, ?bk) \<in> set (rows (books example_db))" by (simp add: example_defs)
  have h3: "price ?bk = 0" by (simp add: book_row_def)
  from purchase_book_price_zero[OF h1 h2 h3, of no_faults 3 "''2024-05-02T08:00:00''"] h1 h2
  show ?thesis by simp
qed

section \<open>Logging in\<close>

lemma fetchone_unique_match:
  assumes "(i, r) \<in> set xs" and "P i r"
    and "\<forall>(j, s) \<in> set xs. P j s \<longrightarrow> (j, s) = (i, r)"
  shows "fetchone (filter (\<lambda>(j, s). P j s) xs @ ys) = Some (i, r)"
proof (cases "filter (\<lambda>(j, s). P j s) xs")
  case Nil
  with assms(1) assms(2) show ?thesis by (auto simp: filter_empty_conv)
next
  case (Cons x rest)
  then have "x \<in> set (filter (\<lambda>(j, s). P j s) xs)" by simp
  with assms(3) have "x = (i, r)" by auto
  with Cons show ?thesis by (simp add: fetchone_def)
qed

lemma selected_by_username:
  assumes "(uid, u) \<in> set (rows (users d))" and "username u = identifier"
    and "\<forall>(j, v) \<in> set (rows (users d)). username v = identifier \<longrightarrow> (j, v) = (uid, u)"
  shows "fetchone (select_username_or_email identifier (users d)) = Some (uid, u)"
  unfolding select_username_or_email_def select_where_def
  using assms by (intro fetchone_unique_match[where P = "\<lambda>_ v. username v = identifier"]) auto

lemma selected_by_email:
  assumes "(uid, u) \<in> set (rows (users d))" and "email u = identifier"
    and "\<forall>(j, v) \<in> set (rows (users d)). username v \<noteq> identifier"
    and "\<forall>(j, v) \<in> set (rows (users d)). email v = identifier \<longrightarrow> (j, v) = (uid, u)"
  shows "fetchone (select_username_or_email identifier (users d)) = Some (uid, u)"
proof -
  from assms(3) have "filter (\<lambda>(j, v). username v = identifier) (rows (users d)) = []"
    by (auto simp: filter_empty_conv)
  moreover have "fetchone (filter (\<lambda>(j, v). username v \<noteq> identifier \<and> email v = identifier)
      (rows (users d)) @ []) = Some (uid, u)"
    using assms
    by (intro fetchone_unique_match[where P = "\<lambda>_ v. username v \<noteq> identifier \<and> email v = identifier"])
      auto
  ultimately show ?thesis
    by (simp add: select_username_or_email_def select_where_def)
qed

text \<open>
  Claim C8, as the code has it.  \<^verbatim>\<open>login\<close> decides on the row its lookup selects for
  the identifier: the user with that username or, when there is none, the user with that
  email.  If the selected row is not approved the answer is NotApprovedError, whatever
  \<^verbatim>\<open>check_password_hash\<close> says about the password.  Otherwise the answer is
  InvalidCredentialsError exactly when no row is selected or the selected row's hash does
  not match.  A stored user is the selected row when the identifier is that user's
  username, and when it is that user's email and nobody's username; so a stored user who
  is not approved is answered NotApprovedError under the own username, and under the own
  email unless that text is somebody's username.
\<close>

theorem login_checks_approval_first:
  "(fetchone (select_username_or_email identifier (users d)) = Some (uid, u) \<and> \<not> is_approved u
      \<longrightarrow>
    login check_password_hash POST identifier pw d = ([(Awaiting_approval, warning)], None)) \<and>
   (fst (login check_password_hash POST identifier pw d) = [(Invalid_credentials, error)] \<longleftrightarrow>
      fetchone (select_username_or_email identifier (users d)) = None \<or>
      (\<exists>uid' u'. fetchone (select_username_or_email identifier (users d)) = Some (uid', u') \<and>
         is_approved u' \<and> \<not> check_password_hash (password u') pw)) \<and>
   ((uid, u) \<in> set (rows (users d)) \<and> \<not> is_approved u \<and> username u = identifier \<and>
    (\<forall>(j, v) \<in> set (rows (users d)). username v = identifier \<longrightarrow> (j, v) = (uid, u))
      \<longrightarrow>
    login check_password_hash POST identifier pw d = ([(Awaiting_approval, warning)], None)) \<and>
   ((uid, u) \<in> set (rows (users d)) \<and> \<not> is_approved u \<and> email u = identifier \<and>
    (\<forall>(j, v) \<in> set (rows (users d)). username v \<noteq> identifier) \<and>
    (\<forall>(j, v) \<in> set (rows (users d)). email v = identifier \<longrightarrow> (j, v) = (uid, u))
      \<longrightarrow>
    login check_password_hash POST identifier pw d = ([(Awaiting_approval, warning)], None))"
proof -
  have selected: "login check_password_hash POST identifier pw d = ([(Awaiting_approval, warning)], None)"
    if "fetchone (select_username_or_email identifier (users d)) = Some (uid, u)"
      and "\<not> is_approved u"
    using that by (simp add: login_def)
  have invalid: "fst (login check_password_hash POST identifier pw d) = [(Invalid_credentials, error)] \<longleftrightarrow>
      fetchone (select_username_or_email identifier (users d)) = None \<or>
      (\<exists>uid' u'. fetchone (select_username_or_email identifier (users d)) = Some (uid', u') \<and>
         is_approved u' \<and> \<not> check_password_hash (password u') pw)"
    by (auto simp: login_def split: option.splits)
  show ?thesis
  proof (intro conjI impI)
    show "fst (login check_password_hash POST identifier pw d) = [(Invalid_credentials, error)] \<longleftrightarrow>
      fetchone (select_username_or_email identifier (users d)) = None \<or>
      (\<exists>uid' u'. fetchone (select_username_or_email identifier (users d)) = Some (uid', u') \<and>
         is_approved u' \<and> \<not> check_password_hash (password u') pw)"
      by (rule invalid)
  next
    assume "fetchone (select_username_or_email identifier (users d)) = Some (uid, u) \<and>
      \<not> is_approved u"
    then show "login check_password_hash POST identifier pw d = ([(Awaiting_approval, warning)], None)"
      using selected by blast
  next
    assume a: "(uid, u) \<in> set (rows (users d)) \<and> \<not> is_approved u \<and> username u = identifier \<and>
      (\<forall>(j, v) \<in> set (rows (users d)). username v = identifier \<longrightarrow> (j, v) = (uid, u))"
    then have "fetchone (select_username_or_email identifier (users d)) = Some (uid, u)"
      by (intro selected_by_username) blast+
    with a show "login check_password_hash POST identifier pw d = ([(Awaiting_approval, warning)], None)"
      using selected by blast
  next
    assume a: "(uid, u) \<in> set (rows (users d)) \<and> \<not> is_approved u \<and> email u = identifier \<and>
      (\<forall>(j, v) \<in> set (rows (users d)). username v \<noteq> identifier) \<and>
      (\<forall>(j, v) \<in> set (rows (users d)). email v = identifier \<longrightarrow> (j, v) = (uid, u))"
    then have "fetchone (select_username_or_email identifier (users d)) = Some (uid, u)"
      by (intro selected_by_email) blast+
    with a show "login check_password_hash POST identifier pw d = ([(Awaiting_approval, warning)], None)"
      using selected by blast
  qed
qed

text \<open>carol awaits approval: under her username and under her email she is turned away
  with the same message, whether the password check would accept or refuse her.\<close>

theorem login_checks_approval_first_witness:
  "login accept_all POST ''carol'' ''secret'' example_db = ([(Awaiting_approval, warning)], None) \<and>
   login accept_none POST ''carol'' ''secret'' example_db = ([(Awaiting_approval, warning)], None) \<and>
   login accept_all POST ''carol@example.org'' ''secret'' example_db =
     ([(Awaiting_approval, warning)], None)"
proof -
  let ?u = "\<lparr>username = ''carol'', email = ''carol@example.org'', password = ''h-carol'',
           first_name = None, last_name = None,
           is_admin = False, is_librarian = False, is_approved = False\<rparr>"
  have sel: "fetchone (select_username_or_email ''carol'' (users example_db)) = Some (5, ?u) \<and>
      \<not> is_approved ?u"
    by (simp add: example_defs select_username_or_email_def select_where_def fetchone_def)
  have by_name: "(5, ?u) \<in> set (rows (users example_db)) \<and> \<not> is_approved ?u \<and>
      username ?u = ''carol'' \<and>
      (\<forall>(j, v) \<in> set (rows (users example_db)). username v = ''carol'' \<longrightarrow> (j, v) = (5, ?u))"
    by (simp add: example_defs)
  have by_mail: "(5, ?u) \<in> set (rows (users example_db)) \<and> \<not> is_approved ?u \<and>
      email ?u = ''carol@example.org'' \<and>
      (\<forall>(j, v) \<in> set (rows (users example_db)). username v \<noteq> ''carol@example.org'') \<and>
      (\<forall>(j, v) \<in> set (rows (users example_db)).
          email v = ''carol@example.org'' \<longrightarrow> (j, v) = (5, ?u))"
    by (simp add: example_defs)
  from login_checks_approval_first[of "''carol''" example_db 5 ?u accept_all "''secret''"] sel
  have a: "login accept_all POST ''carol'' ''secret'' example_db =
      ([(Awaiting_approval, warning)], None)"
    by blast
  from login_checks_approval_first[of "''carol''" example_db 5 ?u accept_none "''secret''"] by_name
  have b: "login accept_none POST ''carol'' ''secret'' example_db =
      ([(Awaiting_approval, warning)], None)"
    by blast
  from login_checks_approval_first[of "''carol@example.org''" example_db 5 ?u accept_all
      "''secret''"] by_mail
  have c: "login accept_all POST ''carol@example.org'' ''secret'' example_db =
      ([(Awaiting_approval, warning)], None)"
    by blast
  from a b c show ?thesis by (intro conjI)
qed


lemma fold_max_bounded: "\<forall>i \<in> set xs. i \<le> (n::nat) \<Longrightarrow> fold max xs n = n"
  by (induction xs) (simp_all add: max_absorb2)

lemma insert_row_bounded:
  "\<forall>i \<in> fst ` set xs. i \<le> n \<Longrightarrow>
   insert_row r \<lparr>rows = xs, seq = n\<rparr> = \<lparr>rows = xs @ [(Suc n, r)], seq = Suc n\<rparr>"
  by (simp add: insert_row_def next_id_def fold_max_bounded)

lemma users_started_db:
  "users started_db = \<lparr>rows =
     [(1, \<lparr>username = ''admin'', email = ''admin@bookhive.com'', password = ''h-adminpass'',
           first_name = Some ''Admin'', last_name = Some ''User'',
           is_admin = True, is_librarian = False, is_approved = True\<rparr>),
      (2, \<lparr>username = ''librarian'', email = ''librarian@bookhive.com'', password = ''h-libpass'',
           first_name = Some ''Library'', last_name = Some ''Keeper'',
           is_admin = False, is_librarian = True, is_approved = True\<rparr>)], seq = 2\<rparr>"
  unfolding started_db_def init_db_def
  by (simp add: no_faults_def example_hash_def empty_db_def empty_table_def
      select_where_def fetchone_def insert_user_def insert_row_bounded execute_Inr)

lemma users_shadow_db:
  "users shadow_db = \<lparr>rows =
     [(1, \<lparr>username = ''admin'', email = ''admin@bookhive.com'', password = ''h-adminpass'',
           first_name = Some ''Admin'', last_name = Some ''User'',
           is_admin = True, is_librarian = False, is_approved = True\<rparr>),
      (2, \<lparr>username = ''librarian'', email = ''librarian@bookhive.com'', password = ''h-libpass'',
           first_name = Some ''Library'', last_name = Some ''Keeper'',
           is_admin = False, is_librarian = True, is_approved = True\<rparr>),
      (3, \<lparr>username = ''dave@example.org'', email = ''mallory@example.org'',
           password = ''h-pw-m'', first_name = None, last_name = None,
           is_admin = False, is_librarian = False, is_approved = True\<rparr>),
      (4, \<lparr>username = ''dave'', email = ''dave@example.org'', password = ''h-pw-d'',
           first_name = None, last_name = None,
           is_admin = False, is_librarian = False, is_approved = False\<rparr>)], seq = 4\<rparr>"
  by (simp add: shadow_db_def first_registered_db_def db_of_def register_def approve_user_def
      users_started_db no_faults_def example_hash_def insert_user_def insert_row_bounded
      update_where_def execute_Inr Let_def)

lemma reachable_started_db: "reachable started_db"
  unfolding started_db_def by (rule reachable.startup) (rule reachable.fresh)

lemma reachable_db_of_register:
  assumes "reachable d"
  shows "reachable (db_of (register fails h m un em pw cpw fname lname d) d)"
proof (cases "register fails h m un em pw cpw fname lname d")
  case (Inl e)
  with assms show ?thesis by (simp add: db_of_def)
next
  case (Inr out)
  then have "register fails h m un em pw cpw fname lname d = Inr (fst out, snd out)" by simp
  with assms have "reachable (snd out)" by (rule reachable.registered)
  with Inr show ?thesis by (auto simp: db_of_def split: prod.splits)
qed

lemma reachable_shadow_db: "reachable shadow_db"
  unfolding shadow_db_def first_registered_db_def
  by (intro reachable.user_approved reachable_db_of_register reachable_started_db)

text \<open>
  Claim C8 as stated fails for a stored user whose email is somebody else's username.  In
  \<open>shadow_db\<close>, a state the application reaches by one start and two registrations,
  dave (id 4) is stored and not approved.  He logs in with his own email and his own
  password, which matches his stored hash.  The lookup selects the approved account whose
  username is that text, the password does not match that account's hash, and dave is
  told "Invalid username/email or password", not that his account awaits approval.
\<close>

theorem login_checks_approval_first_counterexample:
  "reachable shadow_db \<and>
   (4, \<lparr>username = ''dave'', email = ''dave@example.org'', password = ''h-pw-d'',
        first_name = None, last_name = None,
        is_admin = False, is_librarian = False, is_approved = False\<rparr>)
     \<in> set (rows (users shadow_db)) \<and>
   example_check ''h-pw-d'' ''pw-d'' \<and>
   login example_check POST ''dave@example.org'' ''pw-d'' shadow_db =
     ([(Invalid_credentials, error)], None) \<and>
   login example_check POST ''dave@example.org'' ''pw-d'' shadow_db \<noteq>
     ([(Awaiting_approval, warning)], None)"
proof -
  have "login example_check POST ''dave@example.org'' ''pw-d'' shadow_db =
     ([(Invalid_credentials, error)], None)"
    by (simp add: login_def users_shadow_db select_username_or_email_def select_where_def
        fetchone_def example_check_def example_hash_def)
  moreover have "example_check ''h-pw-d'' ''pw-d''"
    by (simp add: example_check_def example_hash_def)
  moreover have "(4, \<lparr>username = ''dave'', email = ''dave@example.org'', password = ''h-pw-d'',
        first_name = None, last_name = None,
        is_admin = False, is_librarian = False, is_approved = False\<rparr>)
     \<in> set (rows (users shadow_db))"
    by (simp add: users_shadow_db)
  ultimately show ?thesis using reachable_shadow_db by simp
qed

lemma fetchone_select_member:
  "(i, r) \<in> set (rows t) \<Longrightarrow> P i r \<Longrightarrow> fetchone (select_where P t) \<noteq> None"
proof -
  assume "(i, r) \<in> set (rows t)" and "P i r"
  then have "(i, r) \<in> set (select_where P t)" by (simp add: select_where_def)
  then show ?thesis by (cases "select_where P t") (auto simp: fetchone_def)
qed

section \<open>Submitting a borrow request twice\<close>

text \<open>
  Claim C5, as the code has it.  For a borrow-only book that is on offer (price 0, status
  \<^verbatim>\<open>Available\<close> or \<^verbatim>\<open>On Shelves\<close>) and a user who already has a pending request for
  it, \<^verbatim>\<open>borrow_book\<close> reports DuplicateRequestError and returns the database it was
  given, whatever fails: no request row is inserted and no table changes.
\<close>

theorem borrow_book_duplicate_request:
  assumes "pk (books d)" and "(bid, bk) \<in> set (rows (books d))"
    and "price bk = 0" and "book_status bk \<in> set available_statuses"
    and "(rid, req) \<in> set (rows (borrow_requests d))"
    and "br_user_id req = uid" and "br_book_id req = bid" and "br_status req = ''Pending''"
  shows "borrow_book fails uid now bid d = ([(Already_pending (title bk), info)], d)"
proof -
  have sel_book: "fetchone (select_where
      (\<lambda>i b. i = bid \<and> price b = 0 \<and> book_status b \<in> set available_statuses) (books d)) =
      Some (bid, bk)"
    using fetchone_by_id[OF assms(1) assms(2),
        of "\<lambda>b. price b = 0 \<and> book_status b \<in> set available_statuses"] assms(3) assms(4)
    by simp
  have existing: "fetchone (select_where
      (\<lambda>_ r. br_user_id r = uid \<and> br_book_id r = bid \<and> br_status r = ''Pending'')
      (borrow_requests d)) \<noteq> None"
    using assms(5) by (rule fetchone_select_member) (simp add: assms(6) assms(7) assms(8))
  then obtain x where found: "fetchone (select_where
      (\<lambda>_ r. br_user_id r = uid \<and> br_book_id r = bid \<and> br_status r = ''Pending'')
      (borrow_requests d)) = Some x"
    by blast
  show ?thesis
    by (simp add: borrow_book_def sel_book found Let_def)
qed

text \<open>alice already has request 1 pending for book 1 of the example library.\<close>

theorem borrow_book_duplicate_request_witness:
  "pk (books example_db) \<and>
   (1, book_row ''Basic Algebra'' ''Math Whiz'' ''Education'' ''Equation Books''
         0.00 ''New'' ''Available'' True) \<in> set (rows (books example_db)) \<and>
   (1, \<lparr>br_user_id = 3, br_book_id = 1, request_date = ''2024-05-01T10:00:00'',
        br_status = ''Pending''\<rparr>) \<in> set (rows (borrow_requests example_db)) \<and>
   borrow_book no_faults 3 ''2024-05-02T08:00:00'' 1 example_db =
     ([(Already_pending ''Basic Algebra'', info)], example_db)"
proof -
  let ?bk = "book_row ''Basic Algebra'' ''Math Whiz'' ''Education'' ''Equation Books''
         0.00 ''New'' ''Available'' True"
  let ?req = "\<lparr>br_user_id = 3, br_book_id = 1, request_date = ''2024-05-01T10:00:00'',
        br_status = ''Pending''\<rparr>"
  have h1: "pk (books example_db)" by (simp add: pk_def example_defs)
  have h2: "(1, ?bk) \<in> set (rows (books example_db))" by (simp add: example_defs)
  have h3: "price ?bk = 0" by (simp add: book_row_def)
  have h4: "book_status ?bk \<in> set available_statuses"
    by (simp add: book_row_def available_statuses_def)
  have h5: "(1, ?req) \<in> set (rows (borrow_requests example_db))" by (simp add: example_defs)
  have h6: "br_user_id ?req = 3" and h7: "br_book_id ?req = 1"
    and h8: "br_status ?req = ''Pending''" by simp_all
  from borrow_book_duplicate_request[OF h1 h2 h3 h4 h5 h6 h7 h8, of no_faults
      "''2024-05-02T08:00:00''"]
  have "borrow_book no_faults 3 ''2024-05-02T08:00:00'' 1 example_db =
     ([(Already_pending ''Basic Algebra'', info)], example_db)"
    by (simp add: book_row_def)
  with h1 h2 h5 show ?thesis by (intro conjI)
qed

text \<open>
  Claim C5 as stated fails for a borrow-only book that is no longer on offer.  In the
  example library alice has request 2 pending for book 3, which has price 0 and has
  meanwhile been lent to bob (status \<^verbatim>\<open>Borrowed\<close>).  Her second request is answered
  with "Book not found or not available for borrowing", not with the duplicate-request
  message.
\<close>

theorem borrow_book_duplicate_request_counterexample:
  "(3, book_row ''World Atlas 2024'' ''Cartography Dept.'' ''Reference'' ''Map Makers Inc.''
         0.00 ''New'' ''Borrowed'' False) \<in> set (rows (books example_db)) \<and>
   (2, \<lparr>br_user_id = 3, br_book_id = 3, request_date = ''2024-05-01T10:05:00'',
        br_status = ''Pending''\<rparr>) \<in> set (rows (borrow_requests example_db)) \<and>
   fst (borrow_book no_faults 3 ''2024-05-02T08:00:00'' 3 example_db) =
     [(Not_available_for_borrowing, error)] \<and>
   fst (borrow_book no_faults 3 ''2024-05-02T08:00:00'' 3 example_db) \<noteq>
     [(Already_pending ''World Atlas 2024'', info)]"
  by (simp add: borrow_book_def example_defs select_where_def fetchone_def
      available_statuses_def)

section \<open>Donations\<close>

text \<open>
  Claim C10.  A donation that reports success has appended exactly one row to the books
  table, under an id no earlier row has: the four fields the donor typed, price 0,
  condition \<^verbatim>\<open>Second Hand\<close>, status \<^verbatim>\<open>On Shelves\<close>, \<^verbatim>\<open>is_available\<close> true.  The
  new book is listed on the borrow page and every other table is unchanged.  A donation
  that does not report success leaves the database as it was.
\<close>

theorem donate_book_fixed_fields:
  "(fst (donate_book fails m t a c p d) = [(Thank_you_for_donating t, success)] \<longrightarrow>
      (\<exists>new_id. new_id \<notin> fst ` set (rows (books d)) \<and>
         rows (books (snd (donate_book fails m t a c p d))) = rows (books d) @
           [(new_id, \<lparr>title = t, author = a, category = c, publisher = p, price = 0,
                      book_condition = ''Second Hand'', book_status = ''On Shelves'',
                      is_available = True\<rparr>)] \<and>
         (new_id, \<lparr>title = t, author = a, category = c, publisher = p, price = 0,
                    book_condition = ''Second Hand'', book_status = ''On Shelves'',
                    is_available = True\<rparr>) \<in> set (books_route (snd (donate_book fails m t a c p d)))) \<and>
      users (snd (donate_book fails m t a c p d)) = users d \<and>
      orders (snd (donate_book fails m t a c p d)) = orders d \<and>
      order_items (snd (donate_book fails m t a c p d)) = order_items d \<and>
      payments (snd (donate_book fails m t a c p d)) = payments d \<and>
      borrowed_books (snd (donate_book fails m t a c p d)) = borrowed_books d \<and>
      borrow_requests (snd (donate_book fails m t a c p d)) = borrow_requests d) \<and>
   (fst (donate_book fails m t a c p d) \<noteq> [(Thank_you_for_donating t, success)] \<longrightarrow>
      snd (donate_book fails m t a c p d) = d)"
proof -
  have fresh: "next_id (books d) \<notin> fst ` set (rows (books d))" by (rule next_id_fresh)
  show ?thesis
    using fresh
    by (auto simp: donate_book_def Let_def execute_Inr insert_row_def books_route_def
        select_where_def available_statuses_def)
qed

text \<open>A donation to the example library becomes book 4.\<close>

theorem donate_book_fixed_fields_witness:
  "donate_book no_faults POST ''Walden'' ''H. D. Thoreau'' ''Essays'' ''Ticknor'' example_db =
     ([(Thank_you_for_donating ''Walden'', success)],
      example_db\<lparr>books := \<lparr>rows = rows (books example_db) @
         [(4, \<lparr>title = ''Walden'', author = ''H. D. Thoreau'', category = ''Essays'',
               publisher = ''Ticknor'', price = 0, book_condition = ''Second Hand'',
               book_status = ''On Shelves'', is_available = True\<rparr>)], seq = 4\<rparr>\<rparr>)"
proof -
  have ok: "fst (donate_book no_faults POST ''Walden'' ''H. D. Thoreau'' ''Essays'' ''Ticknor''
      example_db) = [(Thank_you_for_donating ''Walden'', success)]"
    by (simp add: donate_book_def no_faults_def execute_Inr)
  from donate_book_fixed_fields[of no_faults POST "''Walden''" "''H. D. Thoreau''" "''Essays''"
      "''Ticknor''" example_db] ok
  have "\<exists>new_id. rows (books (snd (donate_book no_faults POST ''Walden'' ''H. D. Thoreau''
      ''Essays'' ''Ticknor'' example_db))) = rows (books example_db) @
        [(new_id, \<lparr>title = ''Walden'', author = ''H. D. Thoreau'', category = ''Essays'',
               publisher = ''Ticknor'', price = 0, book_condition = ''Second Hand'',
               book_status = ''On Shelves'', is_available = True\<rparr>)]"
    by blast
  then show ?thesis
    by (simp add: donate_book_def no_faults_def execute_Inr insert_row_def next_id_def
        example_defs)
qed

section \<open>Deleting a borrower\<close>

lemma fold_order_item_deletes:
  "books (fold (\<lambda>f. f)
      (map (\<lambda>order_id d. d\<lparr>order_items := delete_where (\<lambda>_ r. oi_order_id r = order_id)
          (order_items d)\<rparr>) ids) x) = books x \<and>
   borrowed_books (fold (\<lambda>f. f)
      (map (\<lambda>order_id d. d\<lparr>order_items := delete_where (\<lambda>_ r. oi_order_id r = order_id)
          (order_items d)\<rparr>) ids) x) = borrowed_books x"
  by (induction ids arbitrary: x) simp_all

lemma double_loan_db_value:
  "double_loan_db = example_db
     \<lparr>books := \<lparr>rows =
        [(1, book_row ''Basic Algebra'' ''Math Whiz'' ''Education'' ''Equation Books''
               0 ''New'' ''Available'' True),
         (2, book_row ''Coding for Beginners'' ''Dev Guru'' ''Technology'' ''Code Publishers''
               22 ''New'' ''Available'' True),
         (3, book_row ''World Atlas 2024'' ''Cartography Dept.'' ''Reference'' ''Map Makers Inc.''
               0 ''New'' ''Borrowed'' False)], seq = 3\<rparr>,
      borrowed_books := \<lparr>rows =
        [(1, \<lparr>bb_user_id = 4, bb_book_id = 3, borrow_date = ''2024-04-30T09:00:00'',
              return_date = None, bb_status = ''Borrowed''\<rparr>),
         (2, \<lparr>bb_user_id = 3, bb_book_id = 3, borrow_date = ''2024-05-03T09:00:00'',
              return_date = None, bb_status = ''Borrowed''\<rparr>)], seq = 2\<rparr>,
      borrow_requests := \<lparr>rows =
        [(1, \<lparr>br_user_id = 3, br_book_id = 1, request_date = ''2024-05-01T10:00:00'',
              br_status = ''Pending''\<rparr>),
         (2, \<lparr>br_user_id = 3, br_book_id = 3, request_date = ''2024-05-01T10:05:00'',
              br_status = ''Approved''\<rparr>),
         (3, \<lparr>br_user_id = 4, br_book_id = 9, request_date = ''2024-05-01T10:10:00'',
              br_status = ''Pending''\<rparr>)], seq = 3\<rparr>\<rparr>"
  by (simp add: double_loan_db_def approve_borrow_request_def edit_book_def example_float_def
      no_faults_def execute_Inr select_where_def fetchone_def update_where_def insert_row_def
      next_id_def available_statuses_def example_defs Let_def)


text \<open>
  Claim C7, as the code has it.  A \<^verbatim>\<open>delete_user\<close> that reports success leaves the
  books table exactly as it was: a book the deleted user had on loan keeps its row, and
  with it status \<^verbatim>\<open>Borrowed\<close> and \<^verbatim>\<open>is_available\<close> false.  Every borrowed_books row
  of the deleted user is gone and no other row of that table is touched, so the
  \<^verbatim>\<open>Borrowed\<close> records that still reference a book are exactly those of the other
  users: none, if the deleted user held the only ones.
\<close>

theorem delete_user_leaves_books:
  assumes "delete_user fails acting uid d = ([(User_deleted, success)], d')"
  shows "books d' = books d \<and>
         rows (borrowed_books d') =
           filter (\<lambda>(i, r). bb_user_id r \<noteq> uid) (rows (borrowed_books d)) \<and>
         active_borrows bid d' = filter (\<lambda>(i, r). bb_user_id r \<noteq> uid) (active_borrows bid d) \<and>
         ((\<forall>(i, r) \<in> set (active_borrows bid d). bb_user_id r = uid) \<longrightarrow>
            active_borrows bid d' = [])"
proof -
  define g where "g = (\<lambda>order_id (d::db). d\<lparr>order_items :=
      delete_where (\<lambda>_ r. oi_order_id r = order_id) (order_items d)\<rparr>)"
  define ids where "ids = map fst (select_where (\<lambda>_ o'. o_user_id o' = uid) (orders d))"
  define fs :: "(db \<Rightarrow> db) list" where "fs =
    [\<lambda>d. d\<lparr>borrowed_books := delete_where (\<lambda>_ r. bb_user_id r = uid) (borrowed_books d)\<rparr>,
     \<lambda>d. d\<lparr>payments := delete_where (\<lambda>_ r. p_user_id r = uid) (payments d)\<rparr>,
     \<lambda>d. d\<lparr>borrow_requests := delete_where (\<lambda>_ r. br_user_id r = uid) (borrow_requests d)\<rparr>]
    @ map g ids
    @ [\<lambda>d. d\<lparr>orders := delete_where (\<lambda>_ r. o_user_id r = uid) (orders d)\<rparr>,
       \<lambda>d. d\<lparr>users := delete_where (\<lambda>i _. i = uid) (users d)\<rparr>]"
  have run: "transaction fails 0 (map execute fs) d = Inr d'"
  proof -
    have "delete_user fails acting uid d = ([(Cannot_delete_own, error)], d) \<or>
          delete_user fails acting uid d = ([(Cannot_delete_protected, error)], d) \<or>
          delete_user fails acting uid d =
            (case transaction fails 0 (map execute fs) d of
               Inr d' \<Rightarrow> ([(User_deleted, success)], d')
             | Inl e \<Rightarrow> ([(Error_deleting_user e, error)], d))"
      by (simp add: delete_user_def Let_def fs_def g_def ids_def comp_def del: transaction.simps)
    with assms show ?thesis by (auto split: sum.splits)
  qed
  have "transaction fails 0 (map execute fs) d = Inl OperationalError \<or>
        transaction fails 0 (map execute fs) d = Inr (fold (\<lambda>f. f) fs d)"
    by (rule transaction_execute_cases)
  with run have d': "d' = fold (\<lambda>f. f) fs d" by auto
  have frame: "books (fold (\<lambda>f. f) (map g ids) x) = books x \<and>
      borrowed_books (fold (\<lambda>f. f) (map g ids) x) = borrowed_books x" for x
    unfolding g_def by (rule fold_order_item_deletes)
  have books: "books d' = books d"
    by (simp add: d' fs_def frame)
  have borrowed: "borrowed_books d' = delete_where (\<lambda>_ r. bb_user_id r = uid) (borrowed_books d)"
    by (simp add: d' fs_def frame)
  have rows: "rows (borrowed_books d') =
      filter (\<lambda>(i, r). bb_user_id r \<noteq> uid) (rows (borrowed_books d))"
    by (simp add: borrowed delete_where_def)
  have active: "active_borrows bid d' =
      filter (\<lambda>(i, r). bb_user_id r \<noteq> uid) (active_borrows bid d)"
    by (simp add: active_borrows_def select_where_def rows conj_commute)
  have none: "(\<forall>(i, r) \<in> set (active_borrows bid d). bb_user_id r = uid) \<longrightarrow>
      active_borrows bid d' = []"
    unfolding active by (auto simp: filter_empty_conv)
  from books rows active none show ?thesis by (intro conjI)
qed

text \<open>bob holds the only loan of book 3 in the example library.  The administrator deletes
  his account: the loan record is gone, the book is still marked \<^verbatim>\<open>Borrowed\<close>, and no
  \<^verbatim>\<open>Borrowed\<close> record references it.\<close>

theorem delete_user_leaves_books_witness:
  "fst (delete_user no_faults (Some 1) 4 example_db) = [(User_deleted, success)] \<and>
   active_borrows 3 example_db =
     [(1, \<lparr>bb_user_id = 4, bb_book_id = 3, borrow_date = ''2024-04-30T09:00:00'',
           return_date = None, bb_status = ''Borrowed''\<rparr>)] \<and>
   books (snd (delete_user no_faults (Some 1) 4 example_db)) = books example_db \<and>
   (3, book_row ''World Atlas 2024'' ''Cartography Dept.'' ''Reference'' ''Map Makers Inc.''
         0.00 ''New'' ''Borrowed'' False) \<in> set (rows (books example_db)) \<and>
   active_borrows 3 (snd (delete_user no_faults (Some 1) 4 example_db)) = []"
proof -
  have ok: "fst (delete_user no_faults (Some 1) 4 example_db) = [(User_deleted, success)]"
    by (simp add: delete_user_def no_faults_def execute_Inr select_where_def fetchone_def
        example_defs Let_def)
  then have h: "delete_user no_faults (Some 1) 4 example_db =
      ([(User_deleted, success)], snd (delete_user no_faults (Some 1) 4 example_db))"
    by (metis prod.collapse)
  have before: "active_borrows 3 example_db =
     [(1, \<lparr>bb_user_id = 4, bb_book_id = 3, borrow_date = ''2024-04-30T09:00:00'',
           return_date = None, bb_status = ''Borrowed''\<rparr>)]"
    by (simp add: active_borrows_def select_where_def example_defs)
  have book: "(3, book_row ''World Atlas 2024'' ''Cartography Dept.'' ''Reference''
      ''Map Makers Inc.'' 0.00 ''New'' ''Borrowed'' False) \<in> set (rows (books example_db))"
    by (simp add: example_defs)
  from delete_user_leaves_books[OF h, of 3] before
  have "books (snd (delete_user no_faults (Some 1) 4 example_db)) = books example_db \<and>
      active_borrows 3 (snd (delete_user no_faults (Some 1) 4 example_db)) = []"
    by simp
  with ok before book show ?thesis by (intro conjI) simp_all
qed

text \<open>
  Claim C7 as stated fails when another user also holds a \<^verbatim>\<open>Borrowed\<close> record on the
  book.  In \<open>double_loan_db\<close> book 3 is on loan to bob (record 1) and to alice (record 2).
  Deleting bob succeeds, the book keeps status \<^verbatim>\<open>Borrowed\<close>, and alice's
  \<^verbatim>\<open>Borrowed\<close> record still references it.
\<close>

theorem delete_user_leaves_books_counterexample:
  "active_borrows 3 double_loan_db =
     [(1, \<lparr>bb_user_id = 4, bb_book_id = 3, borrow_date = ''2024-04-30T09:00:00'',
           return_date = None, bb_status = ''Borrowed''\<rparr>),
      (2, \<lparr>bb_user_id = 3, bb_book_id = 3, borrow_date = ''2024-05-03T09:00:00'',
           return_date = None, bb_status = ''Borrowed''\<rparr>)] \<and>
   fst (delete_user no_faults (Some 1) 4 double_loan_db) = [(User_deleted, success)] \<and>
   (3, book_row ''World Atlas 2024'' ''Cartography Dept.'' ''Reference'' ''Map Makers Inc.''
         0.00 ''New'' ''Borrowed'' False)
     \<in> set (rows (books (snd (delete_user no_faults (Some 1) 4 double_loan_db)))) \<and>
   active_borrows 3 (snd (delete_user no_faults (Some 1) 4 double_loan_db)) =
     [(2, \<lparr>bb_user_id = 3, bb_book_id = 3, borrow_date = ''2024-05-03T09:00:00'',
           return_date = None, bb_status = ''Borrowed''\<rparr>)] \<and>
   active_borrows 3 (snd (delete_user no_faults (Some 1) 4 double_loan_db)) \<noteq> []"
  by (simp add: double_loan_db_value delete_user_def no_faults_def execute_Inr select_where_def
      fetchone_def delete_where_def active_borrows_def example_defs Let_def)

section \<open>Invariants of transactions and of start-up\<close>

text \<open>A property that every statement of a transaction preserves holds after the
  transaction; a property that inserting a user and inserting the sample books preserve
  holds after \<^verbatim>\<open>init_db\<close>, wherever it stops.\<close>

lemma transaction_invariant:
  assumes "P d"
    and "transaction fails k ss d = Inr d'"
    and "\<And>s x y. s \<in> set ss \<Longrightarrow> P x \<Longrightarrow> s x = Inr y \<Longrightarrow> P y"
  shows "P d'"
  using assms
proof (induction ss arbitrary: k d)
  case Nil
  then show ?case by (simp split: if_splits)
next
  case (Cons s ss)
  from Cons.prems(2) obtain x where x: "s d = Inr x"
    and rest: "transaction fails (Suc k) ss x = Inr d'"
    by (auto split: if_splits sum.splits)
  from Cons.prems(1) x have "P x"
    using Cons.prems(3)[of s d x] by simp
  then show ?case
    using rest Cons.prems(3) by (intro Cons.IH[of x "Suc k"]) auto
qed


lemma init_db_invariant:
  assumes start: "P d"
    and user: "\<And>u x y. P x \<Longrightarrow> insert_user u x = Inr y \<Longrightarrow> P y"
    and sample: "\<And>x. P x \<Longrightarrow>
      P (x\<lparr>books := fold insert_row (selling_books @ borrowing_books) (books x)\<rparr>)"
  shows "P (snd (init_db fails h d))"
proof -
  have user_step: "P y"
    if "P x" and "(if c then transaction fails k [insert_user u] x else Inr x) = Inr y"
    for c k u x y
  proof (cases c)
    case True
    with that(2) have "transaction fails k [insert_user u] x = Inr y" by simp
    then have "insert_user u x = Inr y" by (auto split: if_splits sum.splits)
    with that(1) show ?thesis by (rule user)
  next
    case False
    with that show ?thesis by simp
  qed
  have book_step: "P y"
    if "P x" and "(if c then transaction fails k
        [execute (\<lambda>d. d\<lparr>books := fold insert_row (selling_books @ borrowing_books) (books d)\<rparr>)] x
        else Inr x) = Inr y"
    for c k x y
  proof (cases c)
    case True
    with that(2) have "y = x\<lparr>books := fold insert_row (selling_books @ borrowing_books) (books x)\<rparr>"
      by (auto simp: execute_Inr split: if_splits)
    moreover from that(1)
    have "P (x\<lparr>books := fold insert_row (selling_books @ borrowing_books) (books x)\<rparr>)"
      by (rule sample)
    ultimately show ?thesis by (simp only:)
  next
    case False
    with that show ?thesis by simp
  qed
  define u1 where "u1 = \<lparr>username = ''admin'', email = ''admin@bookhive.com'',
      password = h ''adminpass'', first_name = Some ''Admin'', last_name = Some ''User'',
      is_admin = True, is_librarian = False, is_approved = True\<rparr>"
  define u2 where "u2 = \<lparr>username = ''librarian'', email = ''librarian@bookhive.com'',
      password = h ''libpass'', first_name = Some ''Library'', last_name = Some ''Keeper'',
      is_admin = False, is_librarian = True, is_approved = True\<rparr>"
  define step1 where "step1 =
    (if fetchone (select_where (\<lambda>_ u. username u = ''admin'') (users d)) = None
     then transaction fails 0 [insert_user u1] d else Inr d)"
  define step2 where "step2 d1 =
    (if fetchone (select_where (\<lambda>_ u. username u = ''librarian'') (users d1)) = None
     then transaction fails 2 [insert_user u2] d1 else Inr d1)" for d1
  define step3 where "step3 d2 =
    (if length (rows (books d2)) = 0
     then transaction fails 4
        [execute (\<lambda>d. d\<lparr>books := fold insert_row (selling_books @ borrowing_books) (books d)\<rparr>)] d2
     else Inr d2)" for d2
  have unfolded: "init_db fails h d =
      (case step1 of
         Inl e \<Rightarrow> (Some e, d)
       | Inr d1 \<Rightarrow>
          (case step2 d1 of
             Inl e \<Rightarrow> (Some e, d1)
           | Inr d2 \<Rightarrow>
              (case step3 d2 of Inl e \<Rightarrow> (Some e, d2) | Inr d3 \<Rightarrow> (None, d3))))"
    unfolding init_db_def step1_def step2_def step3_def u1_def u2_def ..
  show ?thesis
  proof (cases step1)
    case (Inl e)
    with start show ?thesis by (simp add: unfolded)
  next
    case (Inr d1)
    then have p1: "P d1" unfolding step1_def by (rule user_step[OF start])
    show ?thesis
    proof (cases "step2 d1")
      case (Inl e)
      with Inr p1 show ?thesis by (simp add: unfolded)
    next
      case d2: (Inr d2)
      then have p2: "P d2" unfolding step2_def by (rule user_step[OF p1])
      show ?thesis
      proof (cases "step3 d2")
        case (Inl e)
        with Inr d2 p2 show ?thesis by (simp add: unfolded)
      next
        case d3: (Inr d3)
        then have "P d3" unfolding step3_def by (rule book_step[OF p2])
        with Inr d2 d3 show ?thesis by (simp add: unfolded)
      qed
    qed
  qed
qed

section \<open>Availability mirrors status\<close>

lemma ac_frame:
  "books d' = books d \<Longrightarrow> availability_consistent d \<Longrightarrow> availability_consistent d'"
  by (simp add: availability_consistent_def)

lemma ac_insert:
  "availability_consistent d \<Longrightarrow>
   is_available b \<longleftrightarrow> book_status b \<in> set available_statuses \<Longrightarrow>
   availability_consistent (d\<lparr>books := insert_row b (books d)\<rparr>)"
  by (auto simp: availability_consistent_def insert_row_def)

lemma ac_update:
  "availability_consistent d \<Longrightarrow>
   (\<And>b. is_available (f b) \<longleftrightarrow> book_status (f b) \<in> set available_statuses) \<Longrightarrow>
   availability_consistent (d\<lparr>books := update_where P f (books d)\<rparr>)"
  by (auto simp: availability_consistent_def update_where_def split: if_splits)

lemma ac_insert_user:
  "availability_consistent x \<Longrightarrow> insert_user u x = Inr y \<Longrightarrow> availability_consistent y"
  by (auto simp: insert_user_def availability_consistent_def split: if_splits)

lemma ac_approve_user:
  "availability_consistent d \<Longrightarrow> availability_consistent (snd (approve_user fails uid d))"
  by (auto simp: approve_user_def execute_Inr split: sum.splits if_splits intro: ac_frame[rotated])

lemma ac_register:
  "availability_consistent d \<Longrightarrow> register fails h m un em pw cpw fname lname d = Inr (msgs, d') \<Longrightarrow>
   availability_consistent d'"
  by (auto simp: register_def Let_def split: sum.splits if_splits exn.splits dest: ac_insert_user)


lemma transaction_keeps_books:
  assumes "transaction fails k ss d = Inr d'"
    and "\<And>s x y. s \<in> set ss \<Longrightarrow> s x = Inr y \<Longrightarrow> books y = books x"
  shows "books d' = books d"
  using assms
proof (induction ss arbitrary: k d)
  case Nil
  then show ?case by (simp split: if_splits)
next
  case (Cons s ss)
  from Cons.prems(1) obtain x where x: "s d = Inr x"
    and rest: "transaction fails (Suc k) ss x = Inr d'"
    by (auto split: if_splits sum.splits)
  from x have "books x = books d" using Cons.prems(2)[of s d x] by simp
  moreover from rest have "books d' = books x"
    using Cons.prems(2) by (intro Cons.IH[of "Suc k" x]) auto
  ultimately show ?case by simp
qed

lemma delete_user_keeps_books: "books (snd (delete_user fails acting uid d)) = books d"
proof -
  define ss where "ss =
    [execute (\<lambda>d. d\<lparr>borrowed_books := delete_where (\<lambda>_ r. bb_user_id r = uid) (borrowed_books d)\<rparr>),
     execute (\<lambda>d. d\<lparr>payments := delete_where (\<lambda>_ r. p_user_id r = uid) (payments d)\<rparr>),
     execute (\<lambda>d. d\<lparr>borrow_requests := delete_where (\<lambda>_ r. br_user_id r = uid) (borrow_requests d)\<rparr>)]
    @ map (\<lambda>order_id. execute (\<lambda>d. d\<lparr>order_items :=
             delete_where (\<lambda>_ r. oi_order_id r = order_id) (order_items d)\<rparr>))
        (map fst (select_where (\<lambda>_ o'. o_user_id o' = uid) (orders d)))
    @ [execute (\<lambda>d. d\<lparr>orders := delete_where (\<lambda>_ r. o_user_id r = uid) (orders d)\<rparr>),
       execute (\<lambda>d. d\<lparr>users := delete_where (\<lambda>i _. i = uid) (users d)\<rparr>)]"
  have out: "snd (delete_user fails acting uid d) = d \<or>
      transaction fails 0 ss d = Inr (snd (delete_user fails acting uid d))"
    by (auto simp: delete_user_def Let_def ss_def split: sum.splits simp del: transaction.simps)
  have frame: "books y = books x" if "s \<in> set ss" and "s x = Inr y" for s x y
    using that by (auto simp: ss_def execute_Inr)
  from out show ?thesis
  proof
    assume "snd (delete_user fails acting uid d) = d"
    then show ?thesis by simp
  next
    assume "transaction fails 0 ss d = Inr (snd (delete_user fails acting uid d))"
    then show ?thesis using frame by (rule transaction_keeps_books)
  qed
qed

lemma ac_delete_user:
  "availability_consistent d \<Longrightarrow> availability_consistent (snd (delete_user fails acting uid d))"
  using delete_user_keeps_books by (rule ac_frame)

lemma ac_add_book:
  "availability_consistent d \<Longrightarrow>
   availability_consistent (snd (add_book fails to_float m t a c p pr bc bs d))"
  by (auto simp: add_book_def Let_def execute_Inr split: sum.splits option.splits if_splits
      intro!: ac_insert)

lemma ac_edit_book:
  "availability_consistent d \<Longrightarrow>
   availability_consistent (snd (edit_book fails to_float m bid t a c p pr bc bs d))"
  by (auto simp: edit_book_def Let_def execute_Inr split: sum.splits option.splits if_splits
      intro!: ac_update)

lemma ac_delete_book:
  "availability_consistent d \<Longrightarrow> availability_consistent (snd (delete_book fails bid d))"
  by (auto simp: delete_book_def execute_Inr availability_consistent_def delete_where_def
      split: sum.splits if_splits)

lemma ac_donate_book:
  "availability_consistent d \<Longrightarrow>
   availability_consistent (snd (donate_book fails m t a c p d))"
  by (auto simp: donate_book_def Let_def execute_Inr available_statuses_def
      split: sum.splits if_splits intro!: ac_insert)

lemma ac_borrow_book:
  "availability_consistent d \<Longrightarrow>
   availability_consistent (snd (borrow_book fails uid now bid d))"
  by (auto simp: borrow_book_def Let_def execute_Inr split: sum.splits option.splits if_splits
      intro: ac_frame[rotated])

lemma ac_purchase_book:
  "availability_consistent d \<Longrightarrow>
   availability_consistent (snd (purchase_book fails uid now bid d))"
  by (auto simp: purchase_book_def Let_def execute_Inr availability_consistent_def
      update_where_def available_statuses_def split: sum.splits option.splits if_splits)

lemma ac_return_book:
  "availability_consistent d \<Longrightarrow>
   availability_consistent (snd (return_book fails uid now brid d))"
  by (auto simp: return_book_def Let_def execute_Inr availability_consistent_def
      update_where_def available_statuses_def split: sum.splits option.splits if_splits)

lemma ac_approve_borrow_request:
  "availability_consistent d \<Longrightarrow>
   availability_consistent (snd (approve_borrow_request fails now rid d))"
  by (auto simp: approve_borrow_request_def Let_def execute_Inr availability_consistent_def
      update_where_def available_statuses_def split: sum.splits option.splits if_splits)

lemma ac_reject_borrow_request:
  "availability_consistent d \<Longrightarrow>
   availability_consistent (snd (reject_borrow_request fails rid d))"
  by (auto simp: reject_borrow_request_def execute_Inr split: sum.splits option.splits if_splits
      intro: ac_frame[rotated])

lemma rows_fold_insert_row:
  "snd ` set (rows (fold insert_row bs t)) = snd ` set (rows t) \<union> set bs"
proof (induction bs arbitrary: t)
  case Nil
  then show ?case by simp
next
  case (Cons b bs)
  have "snd ` set (rows (insert_row b t)) = snd ` set (rows t) \<union> {b}"
    by (simp add: insert_row_def)
  with Cons.IH[of "insert_row b t"] show ?case by auto
qed

lemma ac_fold_insert:
  assumes "availability_consistent d"
    and "\<forall>b \<in> set bs. is_available b \<longleftrightarrow> book_status b \<in> set available_statuses"
  shows "availability_consistent (d\<lparr>books := fold insert_row bs (books d)\<rparr>)"
proof -
  have "is_available b \<longleftrightarrow> book_status b \<in> set available_statuses"
    if "(i, b) \<in> set (rows (fold insert_row bs (books d)))" for i b
  proof -
    from that have "b \<in> snd ` set (rows (fold insert_row bs (books d)))" by force
    then have "b \<in> snd ` set (rows (books d)) \<or> b \<in> set bs"
      by (simp add: rows_fold_insert_row)
    then show ?thesis
    proof
      assume "b \<in> snd ` set (rows (books d))"
      with assms(1) show ?thesis by (auto simp: availability_consistent_def)
    next
      assume "b \<in> set bs"
      with assms(2) show ?thesis by blast
    qed
  qed
  then show ?thesis
    by (auto simp: availability_consistent_def)
qed



lemma sample_books_all:
  "list_all (\<lambda>b. is_available b \<longleftrightarrow> book_status b \<in> set available_statuses)
     (selling_books @ borrowing_books)"
  unfolding selling_books_def borrowing_books_def book_row_def available_statuses_def
  by simp

lemma sample_books_consistent:
  "\<forall>b \<in> set (selling_books @ borrowing_books).
     is_available b \<longleftrightarrow> book_status b \<in> set available_statuses"
  using sample_books_all unfolding list_all_iff .


lemma ac_init_db:
  assumes "availability_consistent d"
  shows "availability_consistent (snd (init_db fails h d))"
proof (rule init_db_invariant[where P = availability_consistent])
  show "availability_consistent d" by fact
  show "availability_consistent y"
    if "availability_consistent x" and "insert_user u x = Inr y" for u x y
    using that by (rule ac_insert_user)
  show "availability_consistent
      (x\<lparr>books := fold insert_row (selling_books @ borrowing_books) (books x)\<rparr>)"
    if "availability_consistent x" for x
    using that sample_books_consistent by (rule ac_fold_insert)
qed

lemma ac_empty_db: "availability_consistent empty_db"
  by (simp add: availability_consistent_def empty_db_def empty_table_def)

lemma ac_reachable: "reachable d \<Longrightarrow> availability_consistent d"
proof (induction rule: reachable.induct)
  case fresh
  show ?case by (rule ac_empty_db)
next
  case (startup d fails h)
  then show ?case by (simp add: ac_init_db)
next
  case (registered d fails h m un em pw cpw fname lname msgs d')
  then show ?case by (blast intro: ac_register)
next
  case (user_approved d fails uid)
  then show ?case by (simp add: ac_approve_user)
next
  case (user_deleted d fails su uid)
  then show ?case by (simp add: ac_delete_user)
next
  case (book_added d fails to_float m t a c p pr bc bs)
  then show ?case by (simp add: ac_add_book)
next
  case (book_edited d fails to_float m bid t a c p pr bc bs)
  then show ?case by (simp add: ac_edit_book)
next
  case (book_deleted d fails bid)
  then show ?case by (simp add: ac_delete_book)
next
  case (book_donated d fails m t a c p)
  then show ?case by (simp add: ac_donate_book)
next
  case (borrow_requested d fails uid now bid)
  then show ?case by (simp add: ac_borrow_book)
next
  case (purchased d fails uid now bid)
  then show ?case by (simp add: ac_purchase_book)
next
  case (returned d fails uid now brid)
  then show ?case by (simp add: ac_return_book)
next
  case (request_approved d fails now rid)
  then show ?case by (simp add: ac_approve_borrow_request)
next
  case (request_rejected d fails rid)
  then show ?case by (simp add: ac_reject_borrow_request)
qed

text \<open>
  Claim C3.  Each of the six operations that write a books row (\<^verbatim>\<open>add_book\<close>,
  \<^verbatim>\<open>edit_book\<close>, \<^verbatim>\<open>approve_borrow_request\<close>, \<^verbatim>\<open>return_book\<close>, \<^verbatim>\<open>purchase_book\<close>,
  \<^verbatim>\<open>donate_book\<close>), run on a database in which \<^verbatim>\<open>is_available\<close> mirrors
  \<^verbatim>\<open>book_status\<close>, leaves such a database, for every input and every fault.  In every
  reachable state (the empty file, then any sequence of start-ups and handler calls)
  every book has \<^verbatim>\<open>is_available\<close> true if and only if its status is \<^verbatim>\<open>Available\<close> or
  \<^verbatim>\<open>On Shelves\<close>.
\<close>

theorem availability_mirrors_status:
  "(availability_consistent d \<longrightarrow>
      availability_consistent (snd (add_book fails to_float m t a c p pr bc bs d)) \<and>
      availability_consistent (snd (edit_book fails to_float m bid t a c p pr bc bs d)) \<and>
      availability_consistent (snd (approve_borrow_request fails now rid d)) \<and>
      availability_consistent (snd (return_book fails uid now brid d)) \<and>
      availability_consistent (snd (purchase_book fails uid now bid d)) \<and>
      availability_consistent (snd (donate_book fails m t a c p d))) \<and>
   (reachable d \<longrightarrow>
      (\<forall>(i, b) \<in> set (rows (books d)).
         is_available b \<longleftrightarrow> book_status b = ''Available'' \<or> book_status b = ''On Shelves''))"
proof (intro conjI impI)
  assume "reachable d"
  then have "availability_consistent d" by (rule ac_reachable)
  then show "\<forall>(i, b) \<in> set (rows (books d)).
      is_available b \<longleftrightarrow> book_status b = ''Available'' \<or> book_status b = ''On Shelves''"
    by (simp add: availability_consistent_def available_statuses_def)
qed (simp_all add: ac_add_book ac_edit_book ac_approve_borrow_request ac_return_book
    ac_purchase_book ac_donate_book)

text \<open>The database after the first start is reachable, and the example library is
  consistent and stays so when book 2 is bought.\<close>

theorem availability_mirrors_status_witness:
  "reachable started_db \<and> availability_consistent started_db \<and>
   availability_consistent example_db \<and>
   availability_consistent (snd (purchase_book no_faults 3 ''2024-05-02T08:00:00'' 2 example_db))"
proof -
  have r: "reachable started_db"
    unfolding started_db_def by (rule reachable.startup) (rule reachable.fresh)
  have c: "availability_consistent example_db"
    by (simp add: availability_consistent_def available_statuses_def example_defs)
  from availability_mirrors_status[of started_db] r
  have "\<forall>(i, b) \<in> set (rows (books started_db)).
      is_available b \<longleftrightarrow> book_status b = ''Available'' \<or> book_status b = ''On Shelves''"
    by blast
  then have "availability_consistent started_db"
    by (simp add: availability_consistent_def available_statuses_def)
  moreover from availability_mirrors_status[where d = example_db and fails = no_faults
      and uid = 3 and now = "''2024-05-02T08:00:00''" and bid = 2] c
  have "availability_consistent (snd (purchase_book no_faults 3 ''2024-05-02T08:00:00'' 2 example_db))"
    by blast
  ultimately show ?thesis using r c by (intro conjI)
qed

section \<open>Primary keys in reachable states\<close>

lemma map_fst_update:
  "map fst (map (\<lambda>(i, r). if P i r then (i, f r) else (i, r)) xs) = map fst xs"
  by (induction xs) auto

lemma pk_update_where: "pk t \<Longrightarrow> pk (update_where P f t)"
proof -
  have "rows (update_where P f t) =
      map (\<lambda>(i, r). if P i r then (i, f r) else (i, r)) (rows t)"
    by (simp add: update_where_def)
  then have "map fst (rows (update_where P f t)) = map fst (rows t)"
    by (simp only: map_fst_update)
  then show "pk t \<Longrightarrow> pk (update_where P f t)"
    by (simp only: pk_def)
qed

lemma pk_delete_where: "pk t \<Longrightarrow> pk (delete_where P t)"
  by (simp add: pk_def delete_where_def distinct_map_filter)

lemma pk_insert_row: "pk t \<Longrightarrow> pk (insert_row r t)"
  using next_id_fresh[of t] by (simp add: pk_def insert_row_def)

lemma pk_fold_insert_row: "pk t \<Longrightarrow> pk (fold insert_row rs t)"
  by (induction rs arbitrary: t) (simp_all add: pk_insert_row)

lemma pk_empty_table: "pk empty_table"
  by (simp add: pk_def empty_table_def)

lemmas pk_steps = pk_update_where pk_delete_where pk_insert_row pk_fold_insert_row

lemma wk_insert_user: "well_keyed x \<Longrightarrow> insert_user u x = Inr y \<Longrightarrow> well_keyed y"
  by (auto simp: insert_user_def well_keyed_def pk_steps split: if_splits)

lemma wk_empty_db: "well_keyed empty_db"
  by (simp add: well_keyed_def empty_db_def pk_empty_table)

lemma wk_init_db:
  assumes "well_keyed d"
  shows "well_keyed (snd (init_db fails h d))"
proof (rule init_db_invariant[where P = well_keyed])
  show "well_keyed d" by fact
  show "well_keyed y" if "well_keyed x" and "insert_user u x = Inr y" for u x y
    using that by (rule wk_insert_user)
  show "well_keyed (x\<lparr>books := fold insert_row (selling_books @ borrowing_books) (books x)\<rparr>)"
    if "well_keyed x" for x
    using that by (simp add: well_keyed_def pk_steps)
qed

lemma wk_register:
  "well_keyed d \<Longrightarrow> register fails h m un em pw cpw fname lname d = Inr (msgs, d') \<Longrightarrow>
   well_keyed d'"
  by (auto simp: register_def Let_def split: sum.splits if_splits exn.splits dest: wk_insert_user)

lemma wk_approve_user: "well_keyed d \<Longrightarrow> well_keyed (snd (approve_user fails uid d))"
  by (auto simp: approve_user_def execute_Inr well_keyed_def pk_steps split: sum.splits if_splits)

lemma wk_add_book:
  "well_keyed d \<Longrightarrow> well_keyed (snd (add_book fails to_float m t a c p pr bc bs d))"
  by (auto simp: add_book_def Let_def execute_Inr well_keyed_def pk_steps
      split: sum.splits option.splits if_splits)

lemma wk_edit_book:
  "well_keyed d \<Longrightarrow> well_keyed (snd (edit_book fails to_float m bid t a c p pr bc bs d))"
  by (auto simp: edit_book_def Let_def execute_Inr well_keyed_def pk_steps
      split: sum.splits option.splits if_splits)

lemma wk_delete_book: "well_keyed d \<Longrightarrow> well_keyed (snd (delete_book fails bid d))"
  by (auto simp: delete_book_def execute_Inr well_keyed_def pk_steps split: sum.splits if_splits)

lemma wk_donate_book: "well_keyed d \<Longrightarrow> well_keyed (snd (donate_book fails m t a c p d))"
  by (auto simp: donate_book_def Let_def execute_Inr well_keyed_def pk_steps
      split: sum.splits if_splits)

lemma wk_borrow_book: "well_keyed d \<Longrightarrow> well_keyed (snd (borrow_book fails uid now bid d))"
  by (auto simp: borrow_book_def Let_def execute_Inr well_keyed_def pk_steps
      split: sum.splits option.splits if_splits)

lemma wk_purchase_book: "well_keyed d \<Longrightarrow> well_keyed (snd (purchase_book fails uid now bid d))"
  by (auto simp: purchase_book_def Let_def execute_Inr well_keyed_def pk_steps
      split: sum.splits option.splits if_splits)

lemma wk_return_book: "well_keyed d \<Longrightarrow> well_keyed (snd (return_book fails uid now brid d))"
  by (auto simp: return_book_def Let_def execute_Inr well_keyed_def pk_steps
      split: sum.splits option.splits if_splits)

lemma wk_approve_borrow_request:
  "well_keyed d \<Longrightarrow> well_keyed (snd (approve_borrow_request fails now rid d))"
  by (auto simp: approve_borrow_request_def Let_def execute_Inr well_keyed_def pk_steps
      split: sum.splits option.splits if_splits)

lemma wk_reject_borrow_request:
  "well_keyed d \<Longrightarrow> well_keyed (snd (reject_borrow_request fails rid d))"
  by (auto simp: reject_borrow_request_def execute_Inr well_keyed_def pk_steps
      split: sum.splits option.splits if_splits)


lemma wk_delete_user:
  assumes "well_keyed d"
  shows "well_keyed (snd (delete_user fails acting uid d))"
proof -
  define ss where "ss =
    [execute (\<lambda>d. d\<lparr>borrowed_books := delete_where (\<lambda>_ r. bb_user_id r = uid) (borrowed_books d)\<rparr>),
     execute (\<lambda>d. d\<lparr>payments := delete_where (\<lambda>_ r. p_user_id r = uid) (payments d)\<rparr>),
     execute (\<lambda>d. d\<lparr>borrow_requests := delete_where (\<lambda>_ r. br_user_id r = uid) (borrow_requests d)\<rparr>)]
    @ map (\<lambda>order_id. execute (\<lambda>d. d\<lparr>order_items :=
             delete_where (\<lambda>_ r. oi_order_id r = order_id) (order_items d)\<rparr>))
        (map fst (select_where (\<lambda>_ o'. o_user_id o' = uid) (orders d)))
    @ [execute (\<lambda>d. d\<lparr>orders := delete_where (\<lambda>_ r. o_user_id r = uid) (orders d)\<rparr>),
       execute (\<lambda>d. d\<lparr>users := delete_where (\<lambda>i _. i = uid) (users d)\<rparr>)]"
  have out: "snd (delete_user fails acting uid d) = d \<or>
      transaction fails 0 ss d = Inr (snd (delete_user fails acting uid d))"
    by (auto simp: delete_user_def Let_def ss_def split: sum.splits simp del: transaction.simps)
  have step: "well_keyed y" if "s \<in> set ss" and "well_keyed x" and "s x = Inr y" for s x y
    using that by (auto simp: ss_def execute_Inr well_keyed_def pk_steps)
  from out show ?thesis
  proof
    assume "snd (delete_user fails acting uid d) = d"
    with assms show ?thesis by simp
  next
    assume "transaction fails 0 ss d = Inr (snd (delete_user fails acting uid d))"
    with assms show ?thesis using step by (rule transaction_invariant)
  qed
qed

text \<open>Every table of every reachable state has distinct ids, so the primary-key
  hypotheses of the theorems above hold wherever the application can be.\<close>

lemma well_keyed_reachable: "reachable d \<Longrightarrow> well_keyed d"
proof (induction rule: reachable.induct)
  case fresh
  show ?case by (rule wk_empty_db)
next
  case (startup d fails h)
  then show ?case by (simp add: wk_init_db)
next
  case (registered d fails h m un em pw cpw fname lname msgs d')
  then show ?case by (blast intro: wk_register)
next
  case (user_approved d fails uid)
  then show ?case by (simp add: wk_approve_user)
next
  case (user_deleted d fails su uid)
  then show ?case by (simp add: wk_delete_user)
next
  case (book_added d fails to_float m t a c p pr bc bs)
  then show ?case by (simp add: wk_add_book)
next
  case (book_edited d fails to_float m bid t a c p pr bc bs)
  then show ?case by (simp add: wk_edit_book)
next
  case (book_deleted d fails bid)
  then show ?case by (simp add: wk_delete_book)
next
  case (book_donated d fails m t a c p)
  then show ?case by (simp add: wk_donate_book)
next
  case (borrow_requested d fails uid now bid)
  then show ?case by (simp add: wk_borrow_book)
next
  case (purchased d fails uid now bid)
  then show ?case by (simp add: wk_purchase_book)
next
  case (returned d fails uid now brid)
  then show ?case by (simp add: wk_return_book)
next
  case (request_approved d fails now rid)
  then show ?case by (simp add: wk_approve_borrow_request)
next
  case (request_rejected d fails rid)
  then show ?case by (simp add: wk_reject_borrow_request)
qed

end
